theory Spec2Isabelle
  imports Main "HOL-Library.Word" "HOL-Library.Monad_Syntax"
begin

unbundle bit_operations_syntax

section \<open>Common data\<close>

text \<open>
  Bytes are 8-bit words, paths are byte strings.  The exceptions raised by the image
  layer (\<^verbatim>\<open>image_process.cpp\<close>) are the constructors of \<open>error\<close>:
  \<^verbatim>\<open>NoSuchFile\<close>, \<^verbatim>\<open>NoSupport\<close>, \<^verbatim>\<open>std::invalid_argument\<close>,
  \<^verbatim>\<open>std::runtime_error\<close>, \<^verbatim>\<open>std::filesystem::filesystem_error\<close>,
  \<^verbatim>\<open>read_error\<close> and \<^verbatim>\<open>EndOfImage\<close>.
\<close>

type_synonym byte = "8 word"
type_synonym path = string

datatype error =
    NoSuchFile string
  | NoSupport string
  | InvalidArgument string
  | RuntimeError string
  | FilesystemError path
  | ReadError
  | EndOfImage

text \<open>
  The file system the program runs against: what \<^verbatim>\<open>stat\<close> finds at a path.  A
  directory lists its entries by file name.  The empty path names nothing (ENOENT).
\<close>

datatype fsnode = RegularFile "byte list" | Directory "(string \<times> fsnode) list"

type_synonym filesystem = "path \<Rightarrow> fsnode option"

definition fs_stat :: "filesystem \<Rightarrow> path \<Rightarrow> fsnode option" where
  "fs_stat fs p = (if p = [] then None else fs p)"

text \<open>\<^verbatim>\<open>access(p, R_OK) == 0\<close>: something readable is at the path.\<close>

definition access_R_OK :: "filesystem \<Rightarrow> path \<Rightarrow> bool" where
  "access_R_OK fs p = (fs_stat fs p \<noteq> None)"

text \<open>The contents of a regular file; \<open>None\<close> when the path is no regular file.\<close>

definition file_data :: "filesystem \<Rightarrow> path \<Rightarrow> byte list option" where
  "file_data fs p = (case fs_stat fs p of Some (RegularFile d) \<Rightarrow> Some d | _ \<Rightarrow> None)"

section \<open>Raw and split-raw images\<close>

subsection \<open>File-name helpers\<close>

definition fn_ends_with :: "path \<Rightarrow> string \<Rightarrow> bool" where
  "fn_ends_with str suffix =
     (if length suffix > length str then False
      else drop (length str - length suffix) str = suffix)"

definition is_multipart_file :: "path \<Rightarrow> bool" where
  "is_multipart_file fn =
     (fn_ends_with fn ''.000'' \<or> fn_ends_with fn ''.001'' \<or> fn_ends_with fn ''001.vmdk'')"

text \<open>
  \<^verbatim>\<open>std::string::rfind\<close>: the highest position at which the pattern starts, \<open>None\<close> for
  \<^verbatim>\<open>npos\<close>.
\<close>

fun rfind_from :: "string \<Rightarrow> string \<Rightarrow> nat \<Rightarrow> nat option" where
  "rfind_from s pat 0 = (if take (length pat) s = pat then Some 0 else None)"
| "rfind_from s pat (Suc k) =
     (if take (length pat) (drop (Suc k) s) = pat then Some (Suc k) else rfind_from s pat k)"

definition rfind :: "string \<Rightarrow> string \<Rightarrow> nat option" where
  "rfind s pat = (if length pat > length s then None else rfind_from s pat (length s - length pat))"

text \<open>\<^verbatim>\<open>atoi\<close> on the leading decimal digits of a string.\<close>

definition is_digit :: "char \<Rightarrow> bool" where
  "is_digit c = (48 \<le> (of_char c :: nat) \<and> (of_char c :: nat) \<le> 57)"

fun atoi_acc :: "nat \<Rightarrow> string \<Rightarrow> nat" where
  "atoi_acc acc [] = acc"
| "atoi_acc acc (c # cs) =
     (if is_digit c then atoi_acc (10 * acc + (of_char c - 48)) cs else acc)"

definition atoi :: "string \<Rightarrow> nat" where
  "atoi s = atoi_acc 0 s"

text \<open>
  \<^verbatim>\<open>make_list_template\<close> replaces the last \<^verbatim>\<open>000\<close> (or, when there is none, the last
  \<^verbatim>\<open>001\<close>) of the path by \<^verbatim>\<open>%03d\<close> and returns the number after the one found.  The
  template is kept as the text before and after the directive; \<open>None\<close> is the failed
  \<^verbatim>\<open>assert\<close>.
\<close>

definition make_list_template :: "path \<Rightarrow> ((string \<times> string) \<times> nat) option" where
  "make_list_template p =
     (case (case rfind p ''000'' of None \<Rightarrow> rfind p ''001'' | Some k \<Rightarrow> Some k) of
        None \<Rightarrow> None
      | Some k \<Rightarrow> Some ((take k p, drop (k + 3) p), atoi (take 3 (drop k p)) + 1))"

text \<open>
  \<^verbatim>\<open>snprintf(probename, sizeof(probename), templ, num)\<close> for a template whose only
  directive is the \<^verbatim>\<open>%03d\<close> put there by \<^verbatim>\<open>make_list_template\<close>: the number in decimal,
  padded with zeros to three digits.  (A path with a \<^verbatim>\<open>%\<close> of its own, or one longer than
  \<^verbatim>\<open>PATH_MAX\<close>, is outside this model.)
\<close>

function decimal :: "nat \<Rightarrow> string" where
  "decimal n = (if n < 10 then [char_of (48 + n)] else decimal (n div 10) @ [char_of (48 + n mod 10)])"
  by pat_completeness auto
termination
  by (relation "measure id") auto

definition snprintf_03d :: "string \<times> string \<Rightarrow> nat \<Rightarrow> string" where
  "snprintf_03d templ num =
     fst templ @ replicate (3 - length (decimal num)) (CHR ''0'') @ decimal num @ snd templ"

subsection \<open>The segment list\<close>

text \<open>
  \<^verbatim>\<open>process_raw::file_info\<close> and the members of \<^verbatim>\<open>process_raw\<close>.  Sizes and offsets are
  64-bit in the source and natural numbers here; the descriptor \<open>current_fd\<close> is the
  path of the file it was opened on, \<open>None\<close> for \<^verbatim>\<open>-1\<close>.  The POSIX build is modelled
  (no \<^verbatim>\<open>_WIN32\<close>).
\<close>

record file_info =
  name :: path
  offset :: nat
  length_fi :: nat

record process_raw =
  image_fname :: path
  pagesize :: nat
  margin :: nat
  file_list :: "file_info list"
  raw_filesize :: nat
  current_file_name :: path
  current_fd :: "path option"

definition new_process_raw :: "path \<Rightarrow> nat \<Rightarrow> nat \<Rightarrow> process_raw" where
  "new_process_raw fname pagesize_arg margin_arg =
     \<lparr>image_fname = fname, pagesize = pagesize_arg, margin = margin_arg, file_list = [],
      raw_filesize = 0, current_file_name = [], current_fd = None\<rparr>"

text \<open>
  \<^verbatim>\<open>add_file\<close>: \<^verbatim>\<open>std::filesystem::file_size\<close> throws when the path is no regular file.
\<close>

definition add_file :: "filesystem \<Rightarrow> process_raw \<Rightarrow> path \<Rightarrow> error + process_raw" where
  "add_file fs st fname =
     (case file_data fs fname of
        None \<Rightarrow> Inl (FilesystemError fname)
      | Some d \<Rightarrow>
          Inr (st\<lparr>file_list := file_list st @
                      [\<lparr>name = fname, offset = raw_filesize st, length_fi = length d\<rparr>],
                  raw_filesize := raw_filesize st + length d\<rparr>))"

fun find_offset_in :: "file_info list \<Rightarrow> nat \<Rightarrow> file_info option" where
  "find_offset_in [] pos = None"
| "find_offset_in (fi # rest) pos =
     (if offset fi \<le> pos \<and> pos < offset fi + length_fi fi then Some fi
      else find_offset_in rest pos)"

definition find_offset :: "process_raw \<Rightarrow> nat \<Rightarrow> file_info option" where
  "find_offset st pos = find_offset_in (file_list st) pos"

text \<open>
  The probing loop of \<^verbatim>\<open>process_raw::open\<close>: \<^verbatim>\<open>for(;;num++)\<close> runs until a candidate is
  not readable, so the model is a partial function (\<open>None\<close>: the loop never ends).
\<close>

partial_function (option) probe_files ::
  "filesystem \<Rightarrow> string \<times> string \<Rightarrow> nat \<Rightarrow> process_raw \<Rightarrow> (error + process_raw) option" where
  "probe_files fs templ num st =
     (if \<not> access_R_OK fs (snprintf_03d templ num) then Some (Inr st)
      else (case add_file fs st (snprintf_03d templ num) of
              Inl e \<Rightarrow> Some (Inl e)
            | Inr st' \<Rightarrow> probe_files fs templ (num + 1) st'))"

definition open_raw :: "filesystem \<Rightarrow> process_raw \<Rightarrow> (error + process_raw) option" where
  "open_raw fs st =
     (case add_file fs st (image_fname st) of
        Inl e \<Rightarrow> Some (Inl e)
      | Inr st1 \<Rightarrow>
          if is_multipart_file (image_fname st1) then
            (case make_list_template (image_fname st1) of
               None \<Rightarrow> Some (Inl (RuntimeError ''assert''))
             | Some (templ, num) \<Rightarrow> probe_files fs templ num st1)
          else Some (Inr st1))"

definition image_size :: "process_raw \<Rightarrow> nat" where
  "image_size st = raw_filesize st"

subsection \<open>The iterator\<close>

record iterator =
  raw_offset :: nat
  file_number :: nat
  eof :: bool

text \<open>
  \<^verbatim>\<open>seek_block\<close> computes in \<^verbatim>\<open>uint64_t\<close>: the product wraps modulo \<open>2 ^ 64\<close>.  The
  division is reached only when \<open>block * pagesize\<close> exceeds the size, hence with a
  non-zero page size.
\<close>

definition seek_block :: "process_raw \<Rightarrow> iterator \<Rightarrow> nat \<Rightarrow> iterator \<times> nat" where
  "seek_block st it block =
     (let block' = (if (block * pagesize st) mod 2 ^ 64 > raw_filesize st
                    then raw_filesize st div pagesize st else block)
      in (it\<lparr>raw_offset := (block' * pagesize st) mod 2 ^ 64\<rparr>, block'))"

definition increment_iterator :: "process_raw \<Rightarrow> iterator \<Rightarrow> iterator" where
  "increment_iterator st it =
     (let it' = it\<lparr>raw_offset := raw_offset it + pagesize st\<rparr>
      in if raw_offset it' > raw_filesize st then it'\<lparr>raw_offset := raw_filesize st\<rparr> else it')"

subsection \<open>Reading\<close>

text \<open>
  \<^verbatim>\<open>::pread64(fd, buf, nbyte, offset)\<close>: the bytes of the open file from \<open>off\<close> on, at
  most \<open>nbyte\<close> of them; \<open>None\<close> is the return value \<^verbatim>\<open>-1\<close> (a bad descriptor, or a
  descriptor that is no regular file).
\<close>

definition pread64 :: "filesystem \<Rightarrow> path option \<Rightarrow> nat \<Rightarrow> nat \<Rightarrow> byte list option" where
  "pread64 fs fd nbyte off =
     (case fd of
        None \<Rightarrow> None
      | Some p \<Rightarrow> (case file_data fs p of None \<Rightarrow> None | Some d \<Rightarrow> Some (take nbyte (drop off d))))"

text \<open>
  The single-descriptor cache of \<^verbatim>\<open>process_raw::pread\<close>: when the segment is not the
  file currently open, the name is stored first and the file opened after; a failed
  \<^verbatim>\<open>::open\<close> leaves the descriptor at \<^verbatim>\<open>-1\<close> and throws.
\<close>

definition select_file :: "filesystem \<Rightarrow> process_raw \<Rightarrow> file_info \<Rightarrow> process_raw \<times> error option" where
  "select_file fs st fi =
     (if name fi \<noteq> current_file_name st then
        (case fs_stat fs (name fi) of
           None \<Rightarrow> (st\<lparr>current_file_name := name fi, current_fd := None\<rparr>,
                    Some (NoSuchFile ''pread: Cannot ::open file''))
         | Some n \<Rightarrow> (st\<lparr>current_file_name := name fi, current_fd := Some (name fi)\<rparr>, None))
      else (st, None))"

text \<open>
  What \<^verbatim>\<open>pread\<close> does with the result of its recursive call: \<open>got\<close> are the bytes of the
  first read, the pair is the count and the bytes of the second, stored behind them.
\<close>

definition pread_combine ::
  "byte list \<Rightarrow> process_raw \<times> (error + int \<times> byte list) \<Rightarrow>
     (process_raw \<times> (error + int \<times> byte list)) option" where
  "pread_combine got r =
     (case r of
        (st2, Inl e) \<Rightarrow> Some (st2, Inl e)
      | (st2, Inr (bytes_read2, got2)) \<Rightarrow>
          if bytes_read2 < 0 then Some (st2, Inr (- 1, got @ got2))
          else if length got = 0 then Some (st2, Inr (0, got @ got2))
          else Some (st2, Inr (int (length got) + bytes_read2, got @ got2)))"

text \<open>
  \<^verbatim>\<open>process_raw::pread(buf, bytes, offset)\<close>.  The result is the state (the descriptor
  cache is \<^verbatim>\<open>mutable\<close>) and either the exception thrown or the count returned together
  with the bytes stored from \<^verbatim>\<open>buf\<close> on.  The recursion has no bound in the source, so
  the model is a partial function: \<open>None\<close> means the call never returns.
\<close>

partial_function (option) pread ::
  "filesystem \<Rightarrow> process_raw \<Rightarrow> nat \<Rightarrow> nat \<Rightarrow> (process_raw \<times> (error + int \<times> byte list)) option" where
  "pread fs st bytes offs =
     (case find_offset st offs of
        None \<Rightarrow> Some (st, Inr (0, []))
      | Some fi \<Rightarrow>
          (case select_file fs st fi of
             (st1, Some e) \<Rightarrow> Some (st1, Inl e)
           | (st1, None) \<Rightarrow>
               (case pread64 fs (current_fd st1) bytes (offs - offset fi) of
                  None \<Rightarrow> Some (st1, Inl (NoSuchFile ''pread64: READ LESS THAN 0 BYTES''))
                | Some got \<Rightarrow>
                    if length got = bytes then Some (st1, Inr (int (length got), got))
                    else Option.bind (pread fs st1 (bytes - length got) (offs + length got))
                           (pread_combine got))))"

subsection \<open>Page buffers\<close>

text \<open>
  \<^verbatim>\<open>sbuf_t\<close> as far as the image layer and the scanners use it: the position of byte 0,
  the bytes, the number of bytes available and the number that belong to the page.
  \<open>buf\<close> holds the bytes that were stored; what \<^verbatim>\<open>sbuf_malloc\<close> leaves behind them
  after a read of fewer than \<open>bufsize\<close> bytes is not modelled.
\<close>

record sbuf =
  pos0 :: "string \<times> nat"
  buf :: "byte list"
  bufsize :: nat
  sbuf_pagesize :: nat

definition get_pos0 :: "process_raw \<Rightarrow> iterator \<Rightarrow> string \<times> nat" where
  "get_pos0 st it = ([], raw_offset it)"

text \<open>\<^verbatim>\<open>int count_read = this->pread(...)\<close>: the count is narrowed to 32 bits.\<close>

definition int_of_ssize :: "int \<Rightarrow> int" where
  "int_of_ssize n = sint (word_of_int n :: 32 word)"

text \<open>
  \<^verbatim>\<open>process_raw::sbuf_alloc\<close>.  \<^verbatim>\<open>count\<close> is a \<^verbatim>\<open>size_t\<close>: the difference wraps modulo
  \<open>2 ^ 64\<close>.  The iterator is passed by reference and comes back with \<open>eof\<close> set at the
  end of the image.  The read is the virtual call \<^verbatim>\<open>this->pread\<close>: \<open>sbuf_alloc_with\<close>
  takes the reader as an argument, \<open>sbuf_alloc\<close> is the function with the reader of
  \<^verbatim>\<open>process_raw\<close>.
\<close>

definition sbuf_alloc_with ::
  "(process_raw \<Rightarrow> nat \<Rightarrow> nat \<Rightarrow> (process_raw \<times> (error + int \<times> byte list)) option) \<Rightarrow>
     process_raw \<Rightarrow> iterator \<Rightarrow> (process_raw \<times> iterator \<times> (error + sbuf)) option" where
  "sbuf_alloc_with reader st it =
     (let count0 = pagesize st + margin st;
          count = (if raw_filesize st < raw_offset it + count0
                   then (raw_filesize st + 2 ^ 64 - raw_offset it) mod 2 ^ 64 else count0);
          this_pagesize = (if pagesize st > count then count else pagesize st)
      in Option.bind (reader st count (raw_offset it))
           (\<lambda>(st', r).
              case r of
                Inl e \<Rightarrow> Some (st', it, Inl e)
              | Inr (count_read, stored) \<Rightarrow>
                  if int_of_ssize count_read = 0 then Some (st', it\<lparr>eof := True\<rparr>, Inl EndOfImage)
                  else if int_of_ssize count_read < 0 then Some (st', it, Inl ReadError)
                  else Some (st', it,
                         Inr \<lparr>pos0 = get_pos0 st it, buf = stored, bufsize = count,
                              sbuf_pagesize = this_pagesize\<rparr>)))"

definition sbuf_alloc ::
  "filesystem \<Rightarrow> process_raw \<Rightarrow> iterator \<Rightarrow> (process_raw \<times> iterator \<times> (error + sbuf)) option" where
  "sbuf_alloc fs st it = sbuf_alloc_with (pread fs) st it"

subsection \<open>What the specification says of a segment list\<close>

text \<open>
  Segments are contiguous from \<open>b\<close> on when each starts where the one before it ends;
  a segment contains an offset when the offset lies in its half-open range; the image
  is the concatenation of the segments' files.
\<close>

fun contiguous_from :: "nat \<Rightarrow> file_info list \<Rightarrow> bool" where
  "contiguous_from b [] = True"
| "contiguous_from b (fi # rest) = (offset fi = b \<and> contiguous_from (b + length_fi fi) rest)"

definition contains_offset :: "file_info \<Rightarrow> nat \<Rightarrow> bool" where
  "contains_offset fi pos = (offset fi \<le> pos \<and> pos < offset fi + length_fi fi)"

definition segment_data :: "filesystem \<Rightarrow> file_info \<Rightarrow> byte list" where
  "segment_data fs fi = (case file_data fs (name fi) of None \<Rightarrow> [] | Some d \<Rightarrow> d)"

definition image_data :: "filesystem \<Rightarrow> file_info list \<Rightarrow> byte list" where
  "image_data fs fl = concat (map (segment_data fs) fl)"

text \<open>
  The files are as \<^verbatim>\<open>add_file\<close> found them: every segment's file is a regular file of
  the recorded length.
\<close>

definition files_unchanged :: "filesystem \<Rightarrow> file_info list \<Rightarrow> bool" where
  "files_unchanged fs fl =
     list_all (\<lambda>fi. case file_data fs (name fi) of None \<Rightarrow> False | Some d \<Rightarrow> length d = length_fi fi) fl"

text \<open>
  The descriptor cache is coherent: the open descriptor is on the file whose name is
  stored, or nothing is open and the stored name is no segment's.
\<close>

definition cache_coherent :: "process_raw \<Rightarrow> bool" where
  "cache_coherent st =
     (current_fd st = Some (current_file_name st)
      \<or> (current_fd st = None \<and> list_all (\<lambda>fi. name fi \<noteq> current_file_name st) (file_list st)))"

text \<open>
  What \<^verbatim>\<open>open\<close> maintains while it adds files to the state it started from.
\<close>

definition raw_inv :: "filesystem \<Rightarrow> process_raw \<Rightarrow> process_raw \<Rightarrow> bool" where
  "raw_inv fs st0 st = (contiguous_from 0 (file_list st)
     \<and> raw_filesize st = sum_list (map length_fi (file_list st))
     \<and> files_unchanged fs (file_list st)
     \<and> current_file_name st = current_file_name st0 \<and> current_fd st = current_fd st0
     \<and> pagesize st = pagesize st0 \<and> margin st = margin st0 \<and> image_fname st = image_fname st0)"

text \<open>
  The number of bytes a page at the iterator's position holds: \<open>pagesize + margin\<close>,
  clipped to the end of the image.
\<close>

definition page_count :: "process_raw \<Rightarrow> iterator \<Rightarrow> nat" where
  "page_count st it = min (pagesize st + margin st) (raw_filesize st - raw_offset it)"

declare probe_files.simps [code]
declare pread.simps [code]

subsection \<open>Two split images\<close>

text \<open>
  Three parts of 3, 2 and 1 bytes, and three parts of 1 MiB each (the bytes of a part
  all alike), with the states \<^verbatim>\<open>open\<close> builds for them.
\<close>

definition img_small :: filesystem where
  "img_small = (\<lambda>p. if p = ''img.000'' then Some (RegularFile [1, 2, 3])
                else if p = ''img.001'' then Some (RegularFile [4, 5])
                else if p = ''img.002'' then Some (RegularFile [6])
                else None)"

definition split_small :: process_raw where
  "split_small = \<lparr>image_fname = ''img.000'', pagesize = 4, margin = 1,
      file_list = [\<lparr>name = ''img.000'', offset = 0, length_fi = 3\<rparr>,
                   \<lparr>name = ''img.001'', offset = 3, length_fi = 2\<rparr>,
                   \<lparr>name = ''img.002'', offset = 5, length_fi = 1\<rparr>],
      raw_filesize = 6, current_file_name = [], current_fd = None\<rparr>"

definition img_1MiB :: filesystem where
  "img_1MiB = (\<lambda>p. if p = ''img.000'' then Some (RegularFile (replicate 1048576 0xA0))
               else if p = ''img.001'' then Some (RegularFile (replicate 1048576 0xB1))
               else if p = ''img.002'' then Some (RegularFile (replicate 1048576 0xC2))
               else None)"

definition split_1MiB :: process_raw where
  "split_1MiB = \<lparr>image_fname = ''img.000'', pagesize = 4096, margin = 1024,
      file_list = [\<lparr>name = ''img.000'', offset = 0, length_fi = 1048576\<rparr>,
                   \<lparr>name = ''img.001'', offset = 1048576, length_fi = 1048576\<rparr>,
                   \<lparr>name = ''img.002'', offset = 2097152, length_fi = 1048576\<rparr>],
      raw_filesize = 3145728, current_file_name = [], current_fd = None\<rparr>"

subsection \<open>A file truncated after \<^verbatim>\<open>open()\<close>\<close>

text \<open>
  A single file that had 10 bytes when \<^verbatim>\<open>open()\<close> recorded its length and has 5 now, and
  the states in which \<^verbatim>\<open>pread\<close> then finds itself: the segment list still says 10, and
  the descriptor cache holds the file or nothing of that name.
\<close>

definition truncated_fs :: filesystem where
  "truncated_fs = (\<lambda>p. if p = ''img'' then Some (RegularFile [1, 2, 3, 4, 5]) else None)"

definition stale_raw :: process_raw where
  "stale_raw = \<lparr>image_fname = ''img'', pagesize = 10, margin = 0,
      file_list = [\<lparr>name = ''img'', offset = 0, length_fi = 10\<rparr>],
      raw_filesize = 10, current_file_name = [], current_fd = None\<rparr>"

definition stale_reading :: "process_raw \<Rightarrow> bool" where
  "stale_reading st =
     (file_list st = [\<lparr>name = ''img'', offset = 0, length_fi = 10\<rparr>]
      \<and> (current_file_name st = ''img'' \<longrightarrow> current_fd st = Some ''img''))"

section \<open>The pcap writer\<close>

text \<open>
  Modelled from the spec: \<^verbatim>\<open>pcap_write2\<close>, \<^verbatim>\<open>pcap_write4\<close> and \<^verbatim>\<open>pcap_write_bytes\<close>, the
  structure \<^verbatim>\<open>pcap_hdr\<close> and the constants \<^verbatim>\<open>ETHER_HEAD_LEN\<close>, \<^verbatim>\<open>DLT_EN10MB\<close> and
  \<^verbatim>\<open>TCPDUMP_HEADER_SIZE\<close> are declared in \<^verbatim>\<open>pcap_writer.h\<close>, which is not among the
  sources.  The specification has the file little-endian on all platforms, the four
  fields of a record header 32 bits wide, the synthetic header 14 bytes long and the
  link type 1.  \<^verbatim>\<open>PCAP_MAX_PKT_LEN\<close> is a parameter of the model.
\<close>

definition pcap_write2 :: "16 word \<Rightarrow> byte list" where
  "pcap_write2 v = [ucast v, ucast (drop_bit 8 v)]"

definition pcap_write4 :: "32 word \<Rightarrow> byte list" where
  "pcap_write4 v = [ucast v, ucast (drop_bit 8 v), ucast (drop_bit 16 v), ucast (drop_bit 24 v)]"

definition ETHER_HEAD_LEN :: nat where
  "ETHER_HEAD_LEN = 14"

definition DLT_EN10MB :: "32 word" where
  "DLT_EN10MB = 1"

definition TCPDUMP_HEADER_SIZE :: nat where
  "TCPDUMP_HEADER_SIZE = 24"

record pcap_hdr =
  seconds :: "32 word"
  useconds :: "32 word"
  cap_len :: "32 word"
  pkt_len :: "32 word"

text \<open>
  Modelled from the spec: \<^verbatim>\<open>sbuf_t::write(FILE *, pos, len)\<close> is a member of the absent
  \<^verbatim>\<open>sbuf_t\<close>; it copies the packet bytes, \<open>len\<close> of them from \<open>pos\<close> on, out of the
  buffer.
\<close>

definition sbuf_write :: "sbuf \<Rightarrow> nat \<Rightarrow> nat \<Rightarrow> byte list" where
  "sbuf_write sb pos len = take len (drop pos (buf sb))"

text \<open>
  The writer: the path of the output file and \<open>fcap\<close>, the bytes written so far
  (\<open>None\<close> while the file is not open).
\<close>

record pcap_writer =
  outpath :: path
  fcap :: "byte list option"

text \<open>The libpcap global header, written when the file is opened.\<close>

definition pcap_file_header :: "nat \<Rightarrow> byte list" where
  "pcap_file_header max_pkt_len =
     pcap_write4 0xa1b2c3d4 @ pcap_write2 2 @ pcap_write2 4 @ pcap_write4 0 @ pcap_write4 0
       @ pcap_write4 (of_nat max_pkt_len) @ pcap_write4 DLT_EN10MB"

text \<open>
  \<^verbatim>\<open>pcap_writer::pcap_writepkt\<close>.  \<open>max_pkt_len\<close> is \<^verbatim>\<open>PCAP_MAX_PKT_LEN\<close>; \<open>fopen_ok\<close> says
  whether \<^verbatim>\<open>fopen\<close> of the output file succeeds.  The lengths written are
  \<^verbatim>\<open>h.cap_len + forged_header_len\<close> and \<^verbatim>\<open>h.pkt_len + forged_header_len\<close>, narrowed to the
  32 bits \<^verbatim>\<open>pcap_write4\<close> takes.
\<close>

definition pcap_writepkt ::
  "nat \<Rightarrow> bool \<Rightarrow> pcap_writer \<Rightarrow> pcap_hdr \<Rightarrow> sbuf \<Rightarrow> nat \<Rightarrow> bool \<Rightarrow> 16 word \<Rightarrow> error + pcap_writer" where
  "pcap_writepkt max_pkt_len fopen_ok w h sb pos add_frame frame_type =
     (case (case fcap w of
              None \<Rightarrow>
                if fopen_ok then Inr (pcap_file_header max_pkt_len)
                else Inl (RuntimeError (''scan_net.cpp: cannot open '' @ outpath w @ '' for  writing''))
            | Some f \<Rightarrow> Inr f) of
        Inl e \<Rightarrow> Inl e
      | Inr f \<Rightarrow>
          (let add_frame_and_safe = (add_frame \<and> unat (cap_len h) + ETHER_HEAD_LEN \<le> max_pkt_len);
               forged_header_len = (if add_frame_and_safe then ETHER_HEAD_LEN else 0);
               forged_header = replicate (ETHER_HEAD_LEN - 2) 0
                                 @ [ucast (drop_bit 8 frame_type), ucast frame_type];
               f1 = f @ pcap_write4 (seconds h) @ pcap_write4 (useconds h)
                      @ pcap_write4 (cap_len h + of_nat forged_header_len)
                      @ pcap_write4 (pkt_len h + of_nat forged_header_len);
               f2 = (if add_frame_and_safe then f1 @ forged_header else f1)
           in Inr (w\<lparr>fcap := Some (f2 @ sbuf_write sb pos (unat (cap_len h)))\<rparr>)))"

text \<open>
  The scenario of the specification: a buffer of 160 bytes with a 60-byte packet at
  offset 100.
\<close>

definition ipv4_page :: sbuf where
  "ipv4_page = \<lparr>pos0 = ([], 0), buf = replicate 100 0 @ replicate 60 0x45, bufsize = 160,
                 sbuf_pagesize = 160\<rparr>"

section \<open>The image factory\<close>

subsection \<open>Paths\<close>

text \<open>
  The members of \<^verbatim>\<open>std::filesystem::path\<close> the factory uses.  \<open>path_filename\<close> is the
  part behind the last separator; \<open>path_extension\<close> is \<^verbatim>\<open>extension()\<close>: the file name
  from its last period on, empty for \<^verbatim>\<open>.\<close> and \<^verbatim>\<open>..\<close>, for a name without a period and for
  a name whose only period is its first character; \<open>path_append\<close> is \<^verbatim>\<open>operator/\<close>.
\<close>

definition path_filename :: "path \<Rightarrow> string" where
  "path_filename p = rev (takeWhile (\<lambda>c. c \<noteq> CHR ''/'') (rev p))"

definition path_extension :: "path \<Rightarrow> string" where
  "path_extension p =
     (let f = path_filename p in
      if f = ''.'' \<or> f = ''..'' then []
      else (case rfind f ''.'' of
              None \<Rightarrow> []
            | Some k \<Rightarrow> if k = 0 then [] else drop k f))"

definition path_append :: "path \<Rightarrow> string \<Rightarrow> path" where
  "path_append p n = (if p = [] then n else if last p = CHR ''/'' then p @ n else p @ ''/'' @ n)"

text \<open>
  \<^verbatim>\<open>image_process::filename_extension\<close>: what follows the last period of the whole path
  string.
\<close>

definition filename_extension :: "path \<Rightarrow> string" where
  "filename_extension fn = (case rfind fn ''.'' of None \<Rightarrow> [] | Some dotpos \<Rightarrow> drop (dotpos + 1) fn)"

text \<open>\<^verbatim>\<open>::tolower\<close> in the C locale.\<close>

definition tolower :: "char \<Rightarrow> char" where
  "tolower c = (if 65 \<le> (of_char c :: nat) \<and> (of_char c :: nat) \<le> 90
                then char_of ((of_char c :: nat) + 32) else c)"

text \<open>\<^verbatim>\<open>s.find(pat) != std::string::npos\<close>.\<close>

definition string_contains :: "string \<Rightarrow> string \<Rightarrow> bool" where
  "string_contains s pat =
     (length pat \<le> length s \<and>
      list_ex (\<lambda>k. take (length pat) (drop k s) = pat) [0 ..< length s - length pat + 1])"

subsection \<open>Directories\<close>

text \<open>
  The constructor of \<^verbatim>\<open>process_dir\<close> walks the tree and keeps every regular file, in
  the order the iterator yields the entries (here: the order of the listing).
\<close>

fun regular_files :: "path \<Rightarrow> fsnode \<Rightarrow> path list"
  and regular_files_in :: "path \<Rightarrow> (string \<times> fsnode) list \<Rightarrow> path list" where
  "regular_files p (RegularFile d) = [p]"
| "regular_files p (Directory es) = regular_files_in p es"
| "regular_files_in p [] = []"
| "regular_files_in p (ne # es) = regular_files (path_append p (fst ne)) (snd ne) @ regular_files_in p es"

text \<open>An entry the factory takes for a part of a segmented image.\<close>

definition is_image_part :: "path \<Rightarrow> bool" where
  "is_image_part p =
     (path_extension p = ''.E01'' \<or> path_extension p = ''.000'' \<or> path_extension p = ''.001'')"

subsection \<open>\<^verbatim>\<open>image_process::open\<close>\<close>

text \<open>
  What the factory builds, and what it prints on standard error before it throws (the
  text of the messages is not modelled, only what they name).
\<close>

datatype image_process =
    Process_dir "path list"
  | Process_raw process_raw
  | Process_ewf path nat nat

datatype diagnostic =
    Directory_without_recurse path
  | Image_part_in_directory path path

text \<open>
  \<open>libewf\<close> is \<open>None\<close> for a build without \<^verbatim>\<open>HAVE_LIBEWF\<close>; otherwise it gives, for a
  path, the exception \<^verbatim>\<open>process_ewf::open\<close> ends with, if any (the library is external).
  The POSIX build is modelled (no UNC paths).  The result is \<open>None\<close> when the probing
  loop of \<^verbatim>\<open>process_raw::open\<close> does not end.
\<close>

definition image_process_open ::
  "filesystem \<Rightarrow> (path \<Rightarrow> error option) option \<Rightarrow> path \<Rightarrow> bool \<Rightarrow> nat \<Rightarrow> nat \<Rightarrow>
     (diagnostic list \<times> (error + image_process)) option" where
  "image_process_open fs libewf fn opt_recurse pagesize_arg margin_arg =
     (case fs_stat fs fn of
        None \<Rightarrow> Some ([], Inl (NoSuchFile fn))
      | Some (Directory es) \<Rightarrow>
          if \<not> opt_recurse then Some ([Directory_without_recurse fn], Inl (NoSuchFile fn))
          else (case find (\<lambda>ne. is_image_part (path_append fn (fst ne))) es of
                  Some ne \<Rightarrow>
                    Some ([Image_part_in_directory (path_append fn (fst ne)) fn], Inl (NoSuchFile fn))
                | None \<Rightarrow> Some ([], Inr (Process_dir (regular_files fn (Directory es)))))
      | Some (RegularFile d) \<Rightarrow>
          if map tolower (filename_extension fn) = ''e01'' \<or> string_contains fn ''.E01.'' then
            (case libewf of
               None \<Rightarrow> Some ([], Inl (NoSupport ''This program was compiled without E01 support''))
             | Some ewf_open \<Rightarrow>
                 (case ewf_open fn of
                    Some e \<Rightarrow> Some ([], Inl e)
                  | None \<Rightarrow> Some ([], Inr (Process_ewf fn pagesize_arg margin_arg))))
          else
            (case open_raw fs (new_process_raw fn pagesize_arg margin_arg) of
               None \<Rightarrow> None
             | Some (Inl e) \<Rightarrow> Some ([], Inl e)
             | Some (Inr st) \<Rightarrow> Some ([], Inr (Process_raw st))))"

text \<open>
  A directory that holds the first segment of an EnCase image beside a note, and one
  that holds a note and a subdirectory with a file.
\<close>

definition evidence_fs :: filesystem where
  "evidence_fs =
     (\<lambda>p. if p = ''evidence'' then
              Some (Directory [(''notes.txt'', RegularFile [1]), (''image.E01'', RegularFile [2])])
            else if p = ''tree'' then
              Some (Directory [(''notes.txt'', RegularFile [1]),
                               (''sub'', Directory [(''a.bin'', RegularFile [2])])])
            else None)"

section \<open>The facebook scanner\<close>

text \<open>
  Modelled from the spec: \<^verbatim>\<open>sbuf_t::find\<close> is a member of the absent \<^verbatim>\<open>sbuf_t\<close>; it
  returns the index of the first match of the needle at or after \<open>start\<close>, or the
  sentinel \<open>-1\<close>.  Only the first \<open>bufsize\<close> bytes of the buffer are searched.
\<close>

fun find_first :: "byte list \<Rightarrow> byte list \<Rightarrow> nat \<Rightarrow> int" where
  "find_first [] needle k = (if needle = [] then int k else - 1)"
| "find_first (x # xs) needle k =
     (if take (length needle) (x # xs) = needle then int k else find_first xs needle (Suc k))"

definition sbuf_find :: "sbuf \<Rightarrow> byte list \<Rightarrow> nat \<Rightarrow> int" where
  "sbuf_find sb needle start =
     (if bufsize sb < start then - 1
      else find_first (drop start (take (bufsize sb) (buf sb))) needle start)"

text \<open>
  Modelled from the spec: \<^verbatim>\<open>feature_recorder::write_buf(sbuf, begin, length)\<close> belongs to
  the recorder layer, which is not among the sources; a recorder is the list of the
  \<open>(begin, length)\<close> slices it was asked to write, in order.
\<close>

type_synonym feature_recorder = "(int \<times> int) list"

definition write_buf :: "feature_recorder \<Rightarrow> sbuf \<Rightarrow> int \<Rightarrow> int \<Rightarrow> feature_recorder" where
  "write_buf r sb begin len = r @ [(begin, len)]"

text \<open>\<^verbatim>\<open>used_offsets_t\<close>: the offsets recorded on the page, and \<^verbatim>\<open>value_used\<close>.\<close>

definition window :: int where
  "window = 4096"

fun value_used_in :: "int list \<Rightarrow> int \<Rightarrow> bool" where
  "value_used_in [] v = False"
| "value_used_in (x # xs) v =
     (if x - window div 2 < v \<and> x + window div 2 > v then True else value_used_in xs v)"

definition value_used :: "int list \<Rightarrow> int \<Rightarrow> bool \<times> int list" where
  "value_used offsets v =
     (if value_used_in offsets v then (True, offsets) else (False, offsets @ [v]))"

definition bytes_of :: "string \<Rightarrow> byte list" where
  "bytes_of s = map of_char s"

definition facebook_searches :: "byte list list" where
  "facebook_searches = map bytes_of
     [''hovercard/page'',
      ''profile_owner'',
      ''actorDescription actorNames'',
      ''navAccountName'',
      ''renderedAuthorList'',
      ''pokesText'',
      ''id='' @ [CHR 0x22] @ ''facebook.com'' @ [CHR 0x22],
      ''OrderedFriendsListInitialData'',
      ''mobileFriends'',
      ''ShortProfiles'',
      ''bigPipe.onPageletArrive'',
      ''TimelineContentLoader'',
      ''Facebook is a social utility that connects'',
      ''facebook.com/profile.php'',
      ''timelineUnitContainer'']"

lemma find_first_ge: "find_first b needle k = - 1 \<or> int k \<le> find_first b needle k"
  by (induction b arbitrary: k) (auto, fastforce)

lemma sbuf_find_ge: "sbuf_find sb needle start = - 1 \<or> int start \<le> sbuf_find sb needle start"
  using find_first_ge [of "drop start (take (bufsize sb) (buf sb))" needle start]
  by (simp add: sbuf_find_def)

text \<open>
  The inner loop of \<^verbatim>\<open>scan_facebook\<close> for one needle, from the cursor \<open>i\<close> on.  The state
  is the pair of the used offsets and the recorder.  Both the \<^verbatim>\<open>continue\<close> and the end of
  the body are followed by the \<^verbatim>\<open>i++\<close> of the \<^verbatim>\<open>for\<close> statement.
\<close>

function scan_needle ::
  "sbuf \<Rightarrow> byte list \<Rightarrow> nat \<Rightarrow> int list \<times> feature_recorder \<Rightarrow> int list \<times> feature_recorder" where
  "scan_needle sb text_search i st =
     (if \<not> i + 50 < bufsize sb then st
      else if sbuf_find sb text_search i < 1 then st
      else if fst (value_used (fst st) (sbuf_find sb text_search i)) then
        scan_needle sb text_search (nat (sbuf_find sb text_search i + window) + 1)
          (snd (value_used (fst st) (sbuf_find sb text_search i)), snd st)
      else
        (let location = sbuf_find sb text_search i;
             begin = (if location > window div 2 then location - window div 2 else 0);
             end0 = begin + window;
             end1 = (if end0 + 10 > int (bufsize sb) then int (bufsize sb) - 10 else end0);
             len = end1 - begin
         in scan_needle sb text_search (nat (location + window) + 1)
              (snd (value_used (fst st) location), write_buf (snd st) sb begin len)))"
  by pat_completeness auto
termination
proof (relation "measure (\<lambda>(sb, text_search, i, st). bufsize sb - i)")
  show "wf (measure (\<lambda>(sb, text_search, i, st). bufsize sb - i))" by simp
next
  fix sb :: sbuf and text_search i and st :: "int list \<times> feature_recorder"
  assume "\<not> \<not> i + 50 < bufsize sb" "\<not> sbuf_find sb text_search i < 1"
  with sbuf_find_ge [of sb text_search i]
  show "((sb, text_search, nat (sbuf_find sb text_search i + window) + 1,
          snd (value_used (fst st) (sbuf_find sb text_search i)), snd st),
         sb, text_search, i, st) \<in> measure (\<lambda>(sb, text_search, i, st). bufsize sb - i)"
    by (auto simp: window_def)
next
  fix sb :: sbuf and text_search i and st :: "int list \<times> feature_recorder"
    and x xa xb xc xd
  assume "\<not> \<not> i + 50 < bufsize sb" "\<not> sbuf_find sb text_search i < 1"
    and "x = sbuf_find sb text_search i"
  with sbuf_find_ge [of sb text_search i]
  show "((sb, text_search, nat (x + window) + 1, snd (value_used (fst st) x),
          write_buf (snd st) sb xa xd),
         sb, text_search, i, st) \<in> measure (\<lambda>(sb, text_search, i, st). bufsize sb - i)"
    by (auto simp: window_def)
qed

declare scan_needle.simps [simp del]

text \<open>
  \<^verbatim>\<open>scan_facebook\<close>: in the scan phase every needle is searched from offset 0, with one
  set of used offsets for the page; the other phases write nothing.
\<close>

datatype phase = PHASE_INIT | PHASE_SCAN | PHASE_SHUTDOWN

definition scan_facebook :: "phase \<Rightarrow> sbuf \<Rightarrow> feature_recorder \<Rightarrow> feature_recorder" where
  "scan_facebook ph sb facebook_recorder =
     (case ph of
        PHASE_SCAN \<Rightarrow>
          snd (fold (\<lambda>text_search st. scan_needle sb text_search 0 st) facebook_searches
                 ([], facebook_recorder))
      | _ \<Rightarrow> facebook_recorder)"

text \<open>
  Pages: one of 64 bytes with \<^verbatim>\<open>pokesText\<close> at offset 10 and \<^verbatim>\<open>mobileFriends\<close> at offset
  30, one of 64 bytes that starts with \<^verbatim>\<open>pokesText\<close>, and one of 4200 bytes with
  \<^verbatim>\<open>pokesText\<close> at offset 100.
\<close>

definition page_of :: "byte list \<Rightarrow> sbuf" where
  "page_of b = \<lparr>pos0 = ([], 0), buf = b, bufsize = length b, sbuf_pagesize = length b\<rparr>"

definition pokes_page :: sbuf where
  "pokes_page = page_of (replicate 10 0x20 @ bytes_of ''pokesText'' @ replicate 11 0x20
                          @ bytes_of ''mobileFriends'' @ replicate 21 0x20)"

definition leading_page :: sbuf where
  "leading_page = page_of (bytes_of ''pokesText'' @ replicate 55 0x20)"

definition large_page :: sbuf where
  "large_page = page_of (replicate 100 0x20 @ bytes_of ''pokesText'' @ replicate 4091 0x20)"

section \<open>The windirs scanner: FAT directory entries\<close>

subsection \<open>Reading a page buffer\<close>

text \<open>
  Modelled from the spec: the members of \<^verbatim>\<open>sbuf_t\<close> (\<^verbatim>\<open>be13_api/sbuf.h\<close>, not among the
  sources).  A typed read at an offset fails with a range exception when it would go
  past \<open>bufsize\<close>; here a read yields \<open>None\<close> for the exception.  The accessors are
  little-endian.  \<open>sbuf_slice\<close> is the constructor of a child buffer: the bytes of the
  parent from \<open>off\<close> on, at most \<open>len\<close> of them, with the position moved along.
  \<open>is_constant\<close> tells whether every byte equals the given one.
\<close>

definition sbuf_at :: "sbuf \<Rightarrow> nat \<Rightarrow> byte option" where
  "sbuf_at sb i = (if i < bufsize sb then Some (buf sb ! i) else None)"

definition get8u :: "sbuf \<Rightarrow> nat \<Rightarrow> byte option" where
  "get8u sb i = (if i + 1 > bufsize sb then None else Some (buf sb ! i))"

definition get16u :: "sbuf \<Rightarrow> nat \<Rightarrow> 16 word option" where
  "get16u sb i =
     (if i + 2 > bufsize sb then None
      else Some (ucast (buf sb ! i) OR push_bit 8 (ucast (buf sb ! (i + 1)))))"

definition get32u :: "sbuf \<Rightarrow> nat \<Rightarrow> 32 word option" where
  "get32u sb i =
     (if i + 4 > bufsize sb then None
      else Some (ucast (buf sb ! i) OR push_bit 8 (ucast (buf sb ! (i + 1)))
                   OR push_bit 16 (ucast (buf sb ! (i + 2)))
                   OR push_bit 24 (ucast (buf sb ! (i + 3)))))"

definition get64u :: "sbuf \<Rightarrow> nat \<Rightarrow> 64 word option" where
  "get64u sb i =
     (if i + 8 > bufsize sb then None
      else Some (ucast (buf sb ! i) OR push_bit 8 (ucast (buf sb ! (i + 1)))
                   OR push_bit 16 (ucast (buf sb ! (i + 2)))
                   OR push_bit 24 (ucast (buf sb ! (i + 3)))
                   OR push_bit 32 (ucast (buf sb ! (i + 4)))
                   OR push_bit 40 (ucast (buf sb ! (i + 5)))
                   OR push_bit 48 (ucast (buf sb ! (i + 6)))
                   OR push_bit 56 (ucast (buf sb ! (i + 7)))))"

definition sbuf_slice :: "sbuf \<Rightarrow> nat \<Rightarrow> nat \<Rightarrow> sbuf" where
  "sbuf_slice parent off len =
     \<lparr>pos0 = (fst (pos0 parent), snd (pos0 parent) + off),
      buf = take len (drop off (take (bufsize parent) (buf parent))),
      bufsize = min len (bufsize parent - off),
      sbuf_pagesize = min len (sbuf_pagesize parent - off)\<rparr>"

definition is_constant :: "sbuf \<Rightarrow> byte \<Rightarrow> bool" where
  "is_constant sb ch = list_all (\<lambda>b. b = ch) (take (bufsize sb) (buf sb))"

subsection \<open>The header \<^verbatim>\<open>tsk3_fatdirs.h\<close>\<close>

text \<open>
  The header is not among the sources.  Its macros are parameters of the model: the
  attribute masks, the character classes of 8.3 names, the range checks of FAT times
  and dates, and the mask and shift of the year.
\<close>

record fatfs_h =
  FATFS_ATTR_ALL :: byte
  FATFS_ATTR_LFN :: byte
  FATFS_ATTR_VOLUME :: byte
  FATFS_ATTR_DIRECTORY :: byte
  FATFS_ATTR_ARCHIVE :: byte
  FATFS_IS_83_NAME :: "byte \<Rightarrow> bool"
  FATFS_IS_83_EXT :: "byte \<Rightarrow> bool"
  FATFS_ISTIME :: "16 word \<Rightarrow> bool"
  FATFS_ISDATE :: "16 word \<Rightarrow> bool"
  FATFS_YEAR_MASK :: "16 word"
  FATFS_YEAR_SHIFT :: nat

text \<open>
  Modelled from the spec: the structures \<^verbatim>\<open>fatfs_dentry\<close> and \<^verbatim>\<open>fatfs_dentry_lfn\<close> are
  declared in the absent header; the fields are those the scanner reads, laid out as
  in the 32-byte directory entry of the FAT on-disk format.  \<^verbatim>\<open>fat16int\<close> and
  \<^verbatim>\<open>fat32int\<close> assemble little-endian integers.
\<close>

record fatfs_dentry =
  dname :: "byte list"
  ext :: "byte list"
  attrib :: byte
  lowercase :: byte
  ctimeten :: byte
  ctime :: "byte list"
  cdate :: "byte list"
  adate :: "byte list"
  highclust :: "byte list"
  wtime :: "byte list"
  wdate :: "byte list"
  startclust :: "byte list"
  size_bytes :: "byte list"

definition fatfs_dentry_of :: "byte list \<Rightarrow> fatfs_dentry" where
  "fatfs_dentry_of b =
     \<lparr>dname = take 8 b, ext = take 3 (drop 8 b), attrib = b ! 11, lowercase = b ! 12,
      ctimeten = b ! 13, ctime = take 2 (drop 14 b), cdate = take 2 (drop 16 b),
      adate = take 2 (drop 18 b), highclust = take 2 (drop 20 b), wtime = take 2 (drop 22 b),
      wdate = take 2 (drop 24 b), startclust = take 2 (drop 26 b), size_bytes = take 4 (drop 28 b)\<rparr>"

record fatfs_dentry_lfn =
  seq :: byte
  reserved1 :: byte
  reserved2 :: "byte list"

definition fatfs_dentry_lfn_of :: "byte list \<Rightarrow> fatfs_dentry_lfn" where
  "fatfs_dentry_lfn_of b = \<lparr>seq = b ! 0, reserved1 = b ! 12, reserved2 = take 2 (drop 26 b)\<rparr>"

definition fat16int :: "byte list \<Rightarrow> 16 word" where
  "fat16int b = ucast (b ! 0) OR push_bit 8 (ucast (b ! 1))"

definition fat32int :: "byte list \<Rightarrow> 32 word" where
  "fat32int b = ucast (b ! 0) OR push_bit 8 (ucast (b ! 1)) OR push_bit 16 (ucast (b ! 2))
                  OR push_bit 24 (ucast (b ! 3))"

definition fat32int2 :: "byte list \<Rightarrow> byte list \<Rightarrow> 32 word" where
  "fat32int2 high low = ucast (fat16int low) OR push_bit 16 (ucast (fat16int high))"

subsection \<open>The validator\<close>

text \<open>
  The tuning parameters of the scanner (\<^verbatim>\<open>static uint32_t\<close> in the source) and their
  initial values; \<open>opt_last_year\<close> is set to the current year plus 5 when the scanner is
  initialised.
\<close>

record windirs_opts =
  opt_weird_file_size :: nat
  opt_weird_file_size2 :: nat
  opt_weird_cluster_count :: nat
  opt_weird_cluster_count2 :: nat
  opt_max_bits_in_attrib :: nat
  opt_max_weird_count :: nat
  opt_last_year :: nat

definition CLUSTERS_IN_1GiB :: nat where
  "CLUSTERS_IN_1GiB = 2 * 1024 * 1024"

definition default_opts :: "nat \<Rightarrow> windirs_opts" where
  "default_opts last_year =
     \<lparr>opt_weird_file_size = 1024 * 1024 * 150,
      opt_weird_file_size2 = 1024 * 1024 * 512,
      opt_weird_cluster_count = 32 * CLUSTERS_IN_1GiB,
      opt_weird_cluster_count2 = 128 * CLUSTERS_IN_1GiB,
      opt_max_bits_in_attrib = 3,
      opt_max_weird_count = 2,
      opt_last_year = last_year\<rparr>"

text \<open>\<^verbatim>\<open>isupper\<close> and \<^verbatim>\<open>isdigit\<close> in the C locale, and the punctuation an 8.3 name may hold.\<close>

definition isupper :: "byte \<Rightarrow> bool" where
  "isupper ch = (0x41 \<le> ch \<and> ch \<le> 0x5A)"

definition isdigit :: "byte \<Rightarrow> bool" where
  "isdigit ch = (0x30 \<le> ch \<and> ch \<le> 0x39)"

definition name_char_ok :: "byte \<Rightarrow> bool" where
  "name_char_ok ch =
     (\<not> (\<not> isupper ch \<and> \<not> isdigit ch \<and> ch \<noteq> 0x20 \<and> ch \<noteq> 0x21 \<and> ch \<noteq> 0x23 \<and>
         ch \<noteq> 0x24 \<and> ch \<noteq> 0x25 \<and> ch \<noteq> 0x26 \<and> ch \<noteq> 0x27 \<and> ch \<noteq> 0x28 \<and> ch \<noteq> 0x29 \<and>
         ch \<noteq> 0x2D \<and> ch \<noteq> 0x40 \<and> ch \<noteq> 0x5E \<and> ch \<noteq> 0x5F \<and> ch \<noteq> 0x60 \<and> ch \<noteq> 0x7B \<and>
         ch \<noteq> 0x7D \<and> ch \<noteq> 0x7E))"

text \<open>
  The two loops that check the characters up to the first NUL or blank: \<open>True\<close> when the
  loop ends (by \<^verbatim>\<open>break\<close> or at the end of the field), \<open>False\<close> when it returns false.
\<close>

fun chars_ok :: "byte list \<Rightarrow> bool" where
  "chars_ok [] = True"
| "chars_ok (ch # rest) =
     (if ch = 0 \<or> ch = 0x20 then True
      else if \<not> name_char_ok ch then False
      else chars_ok rest)"

definition valid_fat_dentry_name :: "fatfs_h \<Rightarrow> byte list \<Rightarrow> byte list \<Rightarrow> bool" where
  "valid_fat_dentry_name h nm ex =
     (if nm = [0x2E, 0x20, 0x20, 0x20, 0x20, 0x20, 0x20, 0x20] \<and> ex = [0x20, 0x20, 0x20] then True
      else if nm = [0x2E, 0x2E, 0x20, 0x20, 0x20, 0x20, 0x20, 0x20] \<and> ex = [0x20, 0x20, 0x20] then True
      else if \<not> list_all (FATFS_IS_83_NAME h) nm then False
      else if \<not> list_all (FATFS_IS_83_EXT h) ex then False
      else if \<not> chars_ok nm then False
      else if \<not> chars_ok ex then False
      else True)"

datatype fat_validation_t = INVALID | VALID_DENTRY | VALID_LFN | VALID_LAST_DENTRY | ALL_NULL

text \<open>\<^verbatim>\<open>fat_year\<close> returns a \<^verbatim>\<open>uint16_t\<close>.\<close>

definition fat_year :: "fatfs_h \<Rightarrow> 16 word \<Rightarrow> 16 word" where
  "fat_year h f = drop_bit (FATFS_YEAR_SHIFT h) (f AND FATFS_YEAR_MASK h) + 1980"

definition count_bits :: "32 word \<Rightarrow> 32 word" where
  "count_bits x0 =
     (let x1 = x0 - (drop_bit 1 x0 AND 0x55555555);
          x2 = (x1 AND 0x33333333) + (drop_bit 2 x1 AND 0x33333333);
          x3 = (x2 + drop_bit 4 x2) AND 0x0F0F0F0F;
          x4 = x3 + drop_bit 8 x3;
          x5 = x4 + drop_bit 16 x4
      in x5 AND 0x0000003F)"

text \<open>
  The tally of weird properties, \<^verbatim>\<open>weird_count\<close> of the source: one for each test that
  holds.
\<close>

definition weird_count :: "fatfs_h \<Rightarrow> windirs_opts \<Rightarrow> fatfs_dentry \<Rightarrow> nat" where
  "weird_count h opts dentry =
     (let cdate' = fat16int (cdate dentry); adate' = fat16int (adate dentry);
          wdate' = fat16int (wdate dentry)
      in (if unat (fat_year h cdate') > opt_last_year opts then 1 else 0)
       + (if unat (fat_year h adate') > opt_last_year opts then 1 else 0)
       + (if unat (fat32int (size_bytes dentry)) > opt_weird_file_size opts then 1 else 0)
       + (if unat (fat32int (size_bytes dentry)) > opt_weird_file_size2 opts then 1 else 0)
       + (if unat (count_bits (ucast (attrib dentry))) > opt_max_bits_in_attrib opts then 1 else 0)
       + (if unat (fat32int2 (highclust dentry) (startclust dentry)) > opt_weird_cluster_count opts
          then 1 else 0)
       + (if unat (fat32int2 (highclust dentry) (startclust dentry)) > opt_weird_cluster_count2 opts
          then 1 else 0)
       + (if ctimeten dentry \<noteq> 0 \<and> ctimeten dentry \<noteq> 100 then 1 else 0)
       + (if adate' = 0 \<and> cdate' = 0 then 1 else 0)
       + (if adate' = 0 \<and> wdate' = 0 then 1 else 0))"

definition valid_fat_directory_entry :: "fatfs_h \<Rightarrow> windirs_opts \<Rightarrow> sbuf \<Rightarrow> fat_validation_t" where
  "valid_fat_directory_entry h opts sb =
     (if bufsize sb \<noteq> 32 then INVALID
      else if is_constant sb (buf sb ! 0) then ALL_NULL
      else
        (let dentry = fatfs_dentry_of (buf sb) in
         if attrib dentry AND NOT (FATFS_ATTR_ALL h) \<noteq> 0 then INVALID
         else if attrib dentry = FATFS_ATTR_LFN h then
           (let lfn = fatfs_dentry_lfn_of (buf sb) in
            if seq lfn AND NOT 0x40 > 10 then INVALID
            else if reserved1 lfn \<noteq> 0 then INVALID
            else if fat16int (reserved2 lfn) \<noteq> 0 then INVALID
            else VALID_LFN)
         else if dname dentry ! 0 = 0 then VALID_LAST_DENTRY
         else if attrib dentry AND FATFS_ATTR_LFN h = FATFS_ATTR_LFN h
                 \<and> attrib dentry \<noteq> FATFS_ATTR_LFN h then INVALID
         else if attrib dentry AND FATFS_ATTR_DIRECTORY h \<noteq> 0
                 \<and> attrib dentry AND FATFS_ATTR_ARCHIVE h \<noteq> 0 then INVALID
         else if attrib dentry AND 0x40 \<noteq> 0 then INVALID
         else if \<not> valid_fat_dentry_name h (dname dentry) (ext dentry) then INVALID
         else if ctimeten dentry > 199 then INVALID
         else
           (let ctime' = fat16int (ctime dentry); cdate' = fat16int (cdate dentry);
                adate' = fat16int (adate dentry); wtime' = fat16int (wtime dentry);
                wdate' = fat16int (wdate dentry)
            in if ctime' \<noteq> 0 \<and> \<not> FATFS_ISTIME h ctime' then INVALID
               else if cdate' \<noteq> 0 \<and> \<not> FATFS_ISDATE h cdate' then INVALID
               else if adate' \<noteq> 0 \<and> \<not> FATFS_ISDATE h adate' then INVALID
               else if adate' = 0 \<and> ctime' = 0 \<and> cdate' = 0 then
                 (if attrib dentry AND FATFS_ATTR_VOLUME h \<noteq> 0 then VALID_DENTRY else INVALID)
               else if \<not> FATFS_ISTIME h wtime' then INVALID
               else if \<not> FATFS_ISDATE h wdate' then INVALID
               else if ctime' \<noteq> 0 \<and> ctime' = cdate' then INVALID
               else if wtime' \<noteq> 0 \<and> wtime' = wdate' then INVALID
               else if adate' \<noteq> 0 \<and> adate' = ctime' then INVALID
               else if adate' \<noteq> 0 \<and> adate' = wtime' then INVALID
               else if weird_count h opts dentry > opt_max_weird_count opts then INVALID
               else VALID_DENTRY)))"

text \<open>
  Modelled from the spec: an instance of the absent header with the values of the FAT
  on-disk format: the attribute bits (read-only 1, hidden 2, system 4, volume 8,
  directory 16, archive 32; a long name has the low four), name bytes other than
  control characters and the characters a short name may not hold, seconds (in units
  of two) up to 29, minutes up to 59, hours up to 23, days 1 to 31, months 1 to 12, and
  the year in the top seven bits of a date.
\<close>

definition fat_is_83_name :: "byte \<Rightarrow> bool" where
  "fat_is_83_name c =
     (\<not> (c < 0x20 \<or> c = 0x22 \<or> (0x2A \<le> c \<and> c \<le> 0x2C) \<or> c = 0x2E \<or> c = 0x2F
          \<or> (0x3A \<le> c \<and> c \<le> 0x3F) \<or> (0x5B \<le> c \<and> c \<le> 0x5D) \<or> c = 0x7C))"

definition fat_istime :: "16 word \<Rightarrow> bool" where
  "fat_istime x =
     (\<not> (x AND 0x1F > 29 \<or> drop_bit 5 (x AND 0x7E0) > 59 \<or> drop_bit 11 (x AND 0xF800) > 23))"

definition fat_isdate :: "16 word \<Rightarrow> bool" where
  "fat_isdate x =
     (\<not> (x AND 0x1F > 31 \<or> x AND 0x1F < 1 \<or> drop_bit 5 (x AND 0x1E0) > 12
          \<or> drop_bit 5 (x AND 0x1E0) < 1 \<or> drop_bit 9 (x AND 0xFE00) > 127))"

definition fat_format :: fatfs_h where
  "fat_format =
     \<lparr>FATFS_ATTR_ALL = 0x3F, FATFS_ATTR_LFN = 0x0F, FATFS_ATTR_VOLUME = 0x08,
      FATFS_ATTR_DIRECTORY = 0x10, FATFS_ATTR_ARCHIVE = 0x20,
      FATFS_IS_83_NAME = fat_is_83_name,
      FATFS_IS_83_EXT = (\<lambda>c. fat_is_83_name c \<and> c < 0x7F),
      FATFS_ISTIME = fat_istime, FATFS_ISDATE = fat_isdate,
      FATFS_YEAR_MASK = 0xFE00, FATFS_YEAR_SHIFT = 9\<rparr>"

text \<open>
  Three entries.  A volume label \<^verbatim>\<open>DISK\<close> without dates, a file \<^verbatim>\<open>HELLO.TXT\<close> of June
  2015, and the same file with hundredths 50, start cluster \<open>0x7FFFFFFF\<close> and size
  \<open>0xFFFFFFFF\<close>; the label has the same three oddities.
\<close>

definition dentry_sbuf :: "byte list \<Rightarrow> sbuf" where
  "dentry_sbuf b = \<lparr>pos0 = ([], 0), buf = b, bufsize = length b, sbuf_pagesize = length b\<rparr>"

definition volume_label :: sbuf where
  "volume_label = dentry_sbuf
     ([0x44, 0x49, 0x53, 0x4B, 0x20, 0x20, 0x20, 0x20, 0x20, 0x20, 0x20, 0x08, 0, 50,
       0, 0, 0, 0, 0, 0, 0xFF, 0x7F, 0, 0, 0, 0, 0xFF, 0xFF, 0xFF, 0xFF, 0xFF, 0xFF])"

definition hello_txt :: sbuf where
  "hello_txt = dentry_sbuf
     ([0x48, 0x45, 0x4C, 0x4C, 0x4F, 0x20, 0x20, 0x20, 0x54, 0x58, 0x54, 0x20, 0, 0,
       0x00, 0x60, 0xCF, 0x46, 0xD0, 0x46, 0, 0, 0xC0, 0x63, 0xCF, 0x46, 2, 0, 12, 0, 0, 0])"

definition weird_txt :: sbuf where
  "weird_txt = dentry_sbuf
     ([0x48, 0x45, 0x4C, 0x4C, 0x4F, 0x20, 0x20, 0x20, 0x54, 0x58, 0x54, 0x20, 0, 50,
       0x00, 0x60, 0xCF, 0x46, 0xD0, 0x46, 0xFF, 0x7F, 0xC0, 0x63, 0xCF, 0x46, 0xFF, 0xFF,
       0xFF, 0xFF, 0xFF, 0xFF])"

text \<open>An entry without dates: access date, creation time and creation date are all zero.\<close>

definition undated :: "fatfs_dentry \<Rightarrow> bool" where
  "undated dentry =
     (fat16int (adate dentry) = 0 \<and> fat16int (ctime dentry) = 0 \<and> fat16int (cdate dentry) = 0)"

section \<open>The windirs scanner: NTFS file records\<close>

text \<open>
  The declarations of the NTFS structures are not among the sources.  The constants the
  scanner uses are parameters of the model: the magic number of a file record, the
  value of the resident flag, the four attribute types, and the size of the structure
  \<^verbatim>\<open>ntfs_attr\<close>.
\<close>

record ntfs_h =
  NTFS_MFT_MAGIC :: "32 word"
  NTFS_MFT_RES :: nat
  NTFS_ATYPE_SI :: "32 word"
  NTFS_ATYPE_ATTRLIST :: "32 word"
  NTFS_ATYPE_FNAME :: "32 word"
  NTFS_ATYPE_OBJID :: "32 word"
  sizeof_ntfs_attr :: nat

text \<open>
  The values of \<^verbatim>\<open>mftmap\<close>.  The source stores strings; the functions that format them
  (\<^verbatim>\<open>std::to_string\<close>, \<^verbatim>\<open>microsoftDateToISODate\<close>, \<^verbatim>\<open>safe_utf16to8\<close>, \<^verbatim>\<open>snprintf\<close>) are kept
  symbolic: a value is the number, the FILETIME, the UTF-16 units or the bytes of a GUID
  in the order they are printed.  The map is a list of pairs with one entry per key.
\<close>

datatype mft_value =
    Decimal nat
  | ISODate "64 word"
  | Utf16 "16 word list"
  | Guid "byte list"

type_synonym strstrmap_t = "(string \<times> mft_value) list"

fun mftmap_set :: "string \<Rightarrow> mft_value \<Rightarrow> strstrmap_t \<Rightarrow> strstrmap_t" where
  "mftmap_set k v [] = [(k, v)]"
| "mftmap_set k v (kv # m) = (if fst kv = k then (k, v) # m else kv # mftmap_set k v m)"

text \<open>What the walk over the attributes of a record carries along.\<close>

record walk_state =
  mftmap :: strstrmap_t
  filename :: "16 word list"
  found_attrs :: nat

text \<open>
  The parent reference of a file name: the first four bytes are combined as \<^verbatim>\<open>int\<close>
  (the fourth is shifted into the sign bit), the result is widened to 64 bits and
  combined with the fifth and sixth.
\<close>

definition par_ref :: "byte \<Rightarrow> byte \<Rightarrow> byte \<Rightarrow> byte \<Rightarrow> byte \<Rightarrow> byte \<Rightarrow> 64 word" where
  "par_ref b0 b1 b2 b3 b4 b5 =
     scast ((ucast b0 OR push_bit 8 (ucast b1) OR push_bit 16 (ucast b2)
              OR push_bit 24 (ucast b3)) :: 32 word)
       OR push_bit 32 (ucast b4) OR push_bit 40 (ucast b5)"

definition terabyte :: "64 word" where
  "terabyte = 1000 * 1000 * 1000 * 1000"

fun read_utf16 :: "sbuf \<Rightarrow> nat \<Rightarrow> nat \<Rightarrow> 16 word list option" where
  "read_utf16 n pos 0 = Some []"
| "read_utf16 n pos (Suc k) =
     do { c \<leftarrow> get16u n pos; rest \<leftarrow> read_utf16 n (pos + 2) k; Some (c # rest) }"

text \<open>
  The decoding of a resident \<^verbatim>\<open>$FILE_NAME\<close> attribute.  The flag in the result says
  whether the walk is left by \<^verbatim>\<open>break\<close>.
\<close>

definition decode_fname :: "sbuf \<Rightarrow> nat \<Rightarrow> walk_state \<Rightarrow> (bool \<times> walk_state) option" where
  "decode_fname n attr_off st =
     do {
       soff16 \<leftarrow> get16u n (attr_off + 20);
       b0 \<leftarrow> sbuf_at n (attr_off + unat soff16 + 0);
       b1 \<leftarrow> sbuf_at n (attr_off + unat soff16 + 1);
       b2 \<leftarrow> sbuf_at n (attr_off + unat soff16 + 2);
       b3 \<leftarrow> sbuf_at n (attr_off + unat soff16 + 3);
       b4 \<leftarrow> sbuf_at n (attr_off + unat soff16 + 4);
       b5 \<leftarrow> sbuf_at n (attr_off + unat soff16 + 5);
       par_seq \<leftarrow> get16u n (attr_off + unat soff16 + 6);
       crtime \<leftarrow> get64u n (attr_off + unat soff16 + 8);
       mtime \<leftarrow> get64u n (attr_off + unat soff16 + 16);
       ctime_fn \<leftarrow> get64u n (attr_off + unat soff16 + 24);
       atime \<leftarrow> get64u n (attr_off + unat soff16 + 32);
       filesize_alloc \<leftarrow> get64u n (attr_off + unat soff16 + 40);
       let m1 = mftmap_set ''atime_fn'' (ISODate atime)
                 (mftmap_set ''ctime_fn'' (ISODate ctime_fn)
                 (mftmap_set ''mtime_fn'' (ISODate mtime)
                 (mftmap_set ''crtime_fn'' (ISODate crtime)
                 (mftmap_set ''par_seq'' (Decimal (unat par_seq))
                 (mftmap_set ''par_ref'' (Decimal (unat (par_ref b0 b1 b2 b3 b4 b5)))
                    (mftmap st))))));
       if filesize_alloc > 1000 * terabyte then Some (True, st\<lparr>mftmap := m1\<rparr>)
       else do {
         filesize \<leftarrow> get64u n (attr_off + unat soff16 + 48);
         let m2 = mftmap_set ''filesize_alloc'' (Decimal (unat filesize_alloc)) m1;
         if filesize > 1000 * terabyte then Some (True, st\<lparr>mftmap := m2\<rparr>)
         else do {
           attr_flags \<leftarrow> get64u n (attr_off + unat soff16 + 56);
           fname_nlen \<leftarrow> get8u n (attr_off + unat soff16 + 64);
           fname_nspace \<leftarrow> get8u n (attr_off + unat soff16 + 65);
           utf16str \<leftarrow> read_utf16 n (attr_off + unat soff16 + 66) (unat fname_nlen);
           Some (False,
                 st\<lparr>mftmap := mftmap_set ''filename'' (Utf16 utf16str)
                                 (mftmap_set ''attr_flags'' (Decimal (unat attr_flags))
                                 (mftmap_set ''filesize'' (Decimal (unat filesize)) m2)),
                    filename := utf16str\<rparr>)
         }
       }
     }"

definition decode_si :: "sbuf \<Rightarrow> nat \<Rightarrow> walk_state \<Rightarrow> walk_state option" where
  "decode_si n attr_off st =
     do {
       soff16 \<leftarrow> get16u n (attr_off + 20);
       crtime \<leftarrow> get64u n (attr_off + unat soff16 + 0);
       mtime \<leftarrow> get64u n (attr_off + unat soff16 + 8);
       ctime_si \<leftarrow> get64u n (attr_off + unat soff16 + 16);
       atime \<leftarrow> get64u n (attr_off + unat soff16 + 24);
       Some (st\<lparr>mftmap := mftmap_set ''atime_si'' (ISODate atime)
                              (mftmap_set ''ctime_si'' (ISODate ctime_si)
                              (mftmap_set ''mtime_si'' (ISODate mtime)
                              (mftmap_set ''crtime_si'' (ISODate crtime) (mftmap st))))\<rparr>)
     }"

text \<open>The sixteen bytes of a GUID at \<open>base\<close>, read in the order in which they are printed.\<close>

definition guid_at :: "sbuf \<Rightarrow> nat \<Rightarrow> byte list option" where
  "guid_at n base =
     those (map (\<lambda>k. sbuf_at n (base + k)) [3, 2, 1, 0, 5, 4, 7, 6, 8, 9, 10, 11, 12, 13, 14, 15])"

definition decode_objid :: "sbuf \<Rightarrow> nat \<Rightarrow> walk_state \<Rightarrow> walk_state option" where
  "decode_objid n attr_off st =
     do {
       slen \<leftarrow> get32u n (attr_off + 16);
       soff16 \<leftarrow> get16u n (attr_off + 20);
       r1 \<leftarrow> (if unat slen \<ge> 16 then
                 do { g \<leftarrow> guid_at n (attr_off + unat soff16);
                      Some (unat soff16, mftmap_set ''guid_objectid'' (Guid g) (mftmap st)) }
               else Some (unat soff16, mftmap st));
       r2 \<leftarrow> (if unat slen \<ge> 32 then
                 do { g \<leftarrow> guid_at n (attr_off + (fst r1 + 16));
                      Some (fst r1 + 16, mftmap_set ''guid_birthvolumeid'' (Guid g) (snd r1)) }
               else Some r1);
       r3 \<leftarrow> (if unat slen \<ge> 48 then
                 do { g \<leftarrow> guid_at n (attr_off + (fst r2 + 16));
                      Some (fst r2 + 16, mftmap_set ''guid_birthobjectid'' (Guid g) (snd r2)) }
               else Some r2);
       r4 \<leftarrow> (if unat slen \<ge> 64 then
                 do { g \<leftarrow> guid_at n (attr_off + (fst r3 + 16));
                      Some (fst r3 + 16, mftmap_set ''guid_domainid'' (Guid g) (snd r3)) }
               else Some r3);
       Some (st\<lparr>mftmap := snd r4\<rparr>)
     }"

text \<open>
  The \<^verbatim>\<open>while\<close> loop over the attributes of a candidate record \<open>n\<close>, from \<open>attr_off\<close> on.
  \<open>None\<close> is a range exception; \<open>Some\<close> is the state when the loop is left, by its
  condition or by \<^verbatim>\<open>break\<close>.
\<close>

function walk_attrs :: "ntfs_h \<Rightarrow> sbuf \<Rightarrow> nat \<Rightarrow> walk_state \<Rightarrow> walk_state option" where
  "walk_attrs h n attr_off st =
     (if \<not> attr_off + sizeof_ntfs_attr h < bufsize n then Some st
      else
        do {
          attr_type \<leftarrow> get32u n (attr_off + 0);
          attr_len \<leftarrow> get32u n (attr_off + 4);
          if attr_len = 0 then Some st
          else
            do {
              res \<leftarrow> get8u n (attr_off + 8);
              nlen \<leftarrow> get8u n (attr_off + 9);
              name_off \<leftarrow> get16u n (attr_off + 10);
              mft_flags \<leftarrow> get16u n (attr_off + 12);
              attr_id \<leftarrow> get16u n (attr_off + 14);
              if unat res \<noteq> NTFS_MFT_RES h then walk_attrs h n (attr_off + unat attr_len) st
              else
                do {
                  st1 \<leftarrow> Some (if attr_type = NTFS_ATYPE_ATTRLIST h
                                then st\<lparr>found_attrs := found_attrs st + 1\<rparr> else st);
                  r \<leftarrow> (if attr_type = NTFS_ATYPE_FNAME h
                         then decode_fname n attr_off (st1\<lparr>found_attrs := found_attrs st1 + 1\<rparr>)
                         else Some (False, st1));
                  if fst r then Some (snd r)
                  else
                    do {
                      st3 \<leftarrow> (if attr_type = NTFS_ATYPE_SI h
                               then decode_si n attr_off
                                      ((snd r)\<lparr>found_attrs := found_attrs (snd r) + 1\<rparr>)
                               else Some (snd r));
                      st4 \<leftarrow> (if attr_type = NTFS_ATYPE_OBJID h
                               then decode_objid n attr_off (st3\<lparr>found_attrs := found_attrs st3 + 1\<rparr>)
                               else Some st3);
                      walk_attrs h n (attr_off + unat attr_len) st4
                    }
                }
            }
        })"
  by pat_completeness auto
termination
proof (relation "measure (\<lambda>(h, n, attr_off, st). bufsize n - attr_off)")
  show "wf (measure (\<lambda>(h, n, attr_off, st). bufsize n - attr_off))" by simp
next
  fix h :: ntfs_h and n :: sbuf and attr_off :: nat and st :: walk_state
    and attr_len :: "32 word"
  assume "\<not> \<not> attr_off + sizeof_ntfs_attr h < bufsize n" "attr_len \<noteq> 0"
  then have "0 < unat attr_len" "attr_off < bufsize n" by (simp_all add: unat_gt_0)
  then show "((h, n, attr_off + unat attr_len, st), h, n, attr_off, st)
               \<in> measure (\<lambda>(h, n, attr_off, st). bufsize n - attr_off)"
    by simp
next
  fix h :: ntfs_h and n :: sbuf and attr_off :: nat and st st4 :: walk_state
    and attr_len :: "32 word"
  assume "\<not> \<not> attr_off + sizeof_ntfs_attr h < bufsize n" "attr_len \<noteq> 0"
  then have "0 < unat attr_len" "attr_off < bufsize n" by (simp_all add: unat_gt_0)
  then show "((h, n, attr_off + unat attr_len, st4), h, n, attr_off, st)
               \<in> measure (\<lambda>(h, n, attr_off, st). bufsize n - attr_off)"
    by simp
qed

declare walk_attrs.simps [simp del]

text \<open>
  The feature written for a record: the position of the candidate, the file name (the
  fallback \<^verbatim>\<open>$NOFILENAME\<close> when none was decoded) and the map.
\<close>

datatype feature_name = NOFILENAME | Name "16 word list"

type_synonym mft_feature = "(string \<times> nat) \<times> feature_name \<times> strstrmap_t"

text \<open>
  The body of the \<^verbatim>\<open>try\<close> block for one candidate: \<open>None\<close> when a range exception leaves
  it, otherwise the features it writes (none or one).
\<close>

definition scan_mft_record :: "ntfs_h \<Rightarrow> sbuf \<Rightarrow> mft_feature list option" where
  "scan_mft_record h n =
     do {
       magic \<leftarrow> get32u n 0;
       if magic \<noteq> NTFS_MFT_MAGIC h then Some []
       else
         do {
           nlink \<leftarrow> get16u n 16;
           if \<not> nlink < 10 then Some []
           else
             do {
               lsn \<leftarrow> get64u n 8;
               seq_no \<leftarrow> get16u n 18;
               attr_off \<leftarrow> get16u n 20;
               st \<leftarrow> walk_attrs h n (unat attr_off)
                       \<lparr>mftmap = mftmap_set ''seq'' (Decimal (unat seq_no))
                                   (mftmap_set ''lsn'' (Decimal (unat lsn))
                                   (mftmap_set ''nlink'' (Decimal (unat nlink)) [])),
                        filename = [], found_attrs = 0\<rparr>;
               if length (mftmap st) > 3
               then Some [(pos0 n, (if filename st = [] then NOFILENAME else Name (filename st)),
                           mftmap st)]
               else Some []
             }
         }
     }"

text \<open>
  \<^verbatim>\<open>scan_ntfsdirs\<close>: the loop over the candidates of a page, 512 bytes apart.  A candidate
  shorter than 1024 bytes is passed over; a range exception is caught and the loop goes
  on.
\<close>

function scan_ntfsdirs_from :: "ntfs_h \<Rightarrow> sbuf \<Rightarrow> nat \<Rightarrow> mft_feature list \<Rightarrow> mft_feature list" where
  "scan_ntfsdirs_from h sb base wrecorder =
     (if \<not> base < sbuf_pagesize sb then wrecorder
      else if bufsize (sbuf_slice sb base 1024) \<noteq> 1024
        then scan_ntfsdirs_from h sb (base + 512) wrecorder
      else (case scan_mft_record h (sbuf_slice sb base 1024) of
              None \<Rightarrow> scan_ntfsdirs_from h sb (base + 512) wrecorder
            | Some written \<Rightarrow> scan_ntfsdirs_from h sb (base + 512) (wrecorder @ written)))"
  by pat_completeness auto
termination
  by (relation "measure (\<lambda>(h, sb, base, wrecorder). sbuf_pagesize sb - base)") auto

declare scan_ntfsdirs_from.simps [simp del]

definition scan_ntfsdirs :: "ntfs_h \<Rightarrow> sbuf \<Rightarrow> mft_feature list \<Rightarrow> mft_feature list" where
  "scan_ntfsdirs h sb wrecorder = scan_ntfsdirs_from h sb 0 wrecorder"

text \<open>
  What one candidate adds to the recorder, taken by itself, and the offsets of the
  candidates from \<open>base\<close> on.
\<close>

definition candidate_features :: "ntfs_h \<Rightarrow> sbuf \<Rightarrow> nat \<Rightarrow> mft_feature list" where
  "candidate_features h sb base =
     (if bufsize (sbuf_slice sb base 1024) \<noteq> 1024 then []
      else (case scan_mft_record h (sbuf_slice sb base 1024) of None \<Rightarrow> [] | Some written \<Rightarrow> written))"

definition candidate_bases :: "sbuf \<Rightarrow> nat \<Rightarrow> nat list" where
  "candidate_bases sb base =
     map (\<lambda>k. base + 512 * k) [0 ..< (sbuf_pagesize sb - base + 511) div 512]"


text \<open>
  Modelled from the spec: an instance of the absent declarations with the values the
  specification gives: the magic \<^verbatim>\<open>FILE\<close>, the attribute types \<open>0x10\<close>, \<open>0x20\<close>, \<open>0x30\<close> and
  \<open>0x40\<close>; the resident flag is 0 and the attribute structure is taken to be 64 bytes.
\<close>

definition ntfs_format :: ntfs_h where
  "ntfs_format =
     \<lparr>NTFS_MFT_MAGIC = 0x454C4946, NTFS_MFT_RES = 0, NTFS_ATYPE_SI = 0x10,
      NTFS_ATYPE_ATTRLIST = 0x20, NTFS_ATYPE_FNAME = 0x30, NTFS_ATYPE_OBJID = 0x40,
      sizeof_ntfs_attr = 64\<rparr>"

text \<open>
  A page of 1536 bytes with a margin of 512.  The record at offset 0 has a file-name
  attribute whose content offset (1024) points past the record; the record at offset
  1024 has a standard-information attribute with four times, followed by an attribute
  header of length zero.  Nothing is at offset 512.
\<close>

definition mft_record_bad :: "byte list" where
  "mft_record_bad =
     [0x46, 0x49, 0x4C, 0x45, 0, 0, 0, 0, 7, 0, 0, 0, 0, 0, 0, 0, 1, 0, 3, 0, 56, 0]
     @ replicate 34 0
     @ [0x30, 0, 0, 0, 0x60, 0, 0, 0, 0, 0, 0, 0, 0, 0, 0, 0, 0, 0, 0, 0, 0x00, 0x04]
     @ replicate 946 0"

definition mft_record_good :: "byte list" where
  "mft_record_good =
     [0x46, 0x49, 0x4C, 0x45, 0, 0, 0, 0, 9, 0, 0, 0, 0, 0, 0, 0, 1, 0, 3, 0, 56, 0]
     @ replicate 34 0
     @ [0x10, 0, 0, 0, 0x60, 0, 0, 0, 0, 0, 0, 0, 0, 0, 0, 0, 0x30, 0, 0, 0, 0x18, 0, 0, 0]
     @ [1, 0, 0, 0, 0, 0, 0, 0, 2, 0, 0, 0, 0, 0, 0, 0, 3, 0, 0, 0, 0, 0, 0, 0,
        4, 0, 0, 0, 0, 0, 0, 0]
     @ replicate 912 0"

definition mft_page :: sbuf where
  "mft_page = \<lparr>pos0 = ([], 0), buf = mft_record_bad @ mft_record_good, bufsize = 2048,
                sbuf_pagesize = 1536\<rparr>"

section \<open>Properties of the raw image source\<close>

text \<open>
  C5, as stated: for every block number \<open>b\<close>, \<^verbatim>\<open>seek_block(b)\<close> sets the iterator's
  \<open>raw_offset\<close> to \<open>min (b * pagesize) size\<close>.  This fails: a block past the end is
  replaced by \<open>size div pagesize\<close>, so the offset becomes the start of the last page, not
  the size.  Image of 10 bytes, pages of 4, block 3: the offset is 8, not 10.
\<close>

theorem seek_block_min_counterexample:
  "raw_offset (fst (seek_block (new_process_raw ''img'' 4 0\<lparr>raw_filesize := 10\<rparr>)
      \<lparr>raw_offset = 0, file_number = 0, eof = False\<rparr> 3)) = 8
   \<and> min (3 * pagesize (new_process_raw ''img'' 4 0\<lparr>raw_filesize := 10\<rparr>))
          (raw_filesize (new_process_raw ''img'' 4 0\<lparr>raw_filesize := 10\<rparr>)) = 10"
  by (simp add: seek_block_def new_process_raw_def)

text \<open>
  C5, amended: for every block number \<open>b\<close> whose product with the page size fits 64
  bits, \<^verbatim>\<open>seek_block(b)\<close> sets \<open>raw_offset\<close> to \<open>b * pagesize\<close> when that is at most the
  size, and otherwise to \<open>(size div pagesize) * pagesize\<close>, the largest multiple of the
  page size within the image; the block number returned is the one the offset was
  computed from.
\<close>

theorem seek_block_offset:
  assumes "block * pagesize st < 2 ^ 64"
  shows "raw_offset (fst (seek_block st it block)) =
           (if block * pagesize st \<le> raw_filesize st then block * pagesize st
            else (raw_filesize st div pagesize st) * pagesize st)
         \<and> raw_offset (fst (seek_block st it block)) = snd (seek_block st it block) * pagesize st
         \<and> raw_offset (fst (seek_block st it block)) \<le> min (block * pagesize st) (raw_filesize st)"
proof -
  have le: "(raw_filesize st div pagesize st) * pagesize st \<le> raw_filesize st"
    by simp
  show ?thesis
  proof (cases "block * pagesize st \<le> raw_filesize st")
    case True
    with assms show ?thesis by (simp add: seek_block_def Let_def)
  next
    case False
    then have "raw_filesize st < block * pagesize st" by simp
    moreover from this le assms
    have "(raw_filesize st div pagesize st) * pagesize st < 2 ^ 64" by linarith
    ultimately show ?thesis using assms le by (simp add: seek_block_def Let_def)
  qed
qed

theorem seek_block_offset_witness:
  "raw_offset (fst (seek_block (new_process_raw ''img'' 4 0\<lparr>raw_filesize := 10\<rparr>)
      \<lparr>raw_offset = 0, file_number = 0, eof = False\<rparr> 3)) = 8
   \<and> snd (seek_block (new_process_raw ''img'' 4 0\<lparr>raw_filesize := 10\<rparr>)
      \<lparr>raw_offset = 0, file_number = 0, eof = False\<rparr> 3) = 2"
  using seek_block_offset [of 3 "new_process_raw ''img'' 4 0\<lparr>raw_filesize := 10\<rparr>"
      "\<lparr>raw_offset = 0, file_number = 0, eof = False\<rparr>"]
  by (simp add: new_process_raw_def seek_block_def)


subsection \<open>Segments and reads\<close>

lemma contiguous_from_append:
  "contiguous_from b (xs @ [fi]) \<longleftrightarrow>
     contiguous_from b xs \<and> offset fi = b + sum_list (map length_fi xs)"
  by (induction xs arbitrary: b) (auto simp: add.assoc)

lemma contiguous_from_bounds:
  "contiguous_from b fl \<Longrightarrow> fi \<in> set fl \<Longrightarrow>
     b \<le> offset fi \<and> offset fi + length_fi fi \<le> b + sum_list (map length_fi fl)"
proof (induction fl arbitrary: b)
  case Nil
  then show ?case by simp
next
  case (Cons a fl)
  show ?case
  proof (cases "fi = a")
    case True
    with Cons.prems show ?thesis by simp
  next
    case False
    with Cons.prems have "fi \<in> set fl" "contiguous_from (b + length_fi a) fl" by auto
    from Cons.IH [OF this(2) this(1)] show ?thesis by simp
  qed
qed

lemma find_offset_in_Some:
  "find_offset_in fl pos = Some fi \<Longrightarrow> fi \<in> set fl \<and> contains_offset fi pos"
  by (induction fl) (auto simp: contains_offset_def split: if_splits)

lemma find_offset_in_None:
  "find_offset_in fl pos = None \<Longrightarrow> fi \<in> set fl \<Longrightarrow> \<not> contains_offset fi pos"
  by (induction fl) (auto simp: contains_offset_def split: if_splits)

lemma length_image_data:
  "files_unchanged fs fl \<Longrightarrow> length (image_data fs fl) = sum_list (map length_fi fl)"
  by (induction fl) (auto simp: files_unchanged_def image_data_def segment_data_def split: option.splits)

lemma image_data_Cons: "image_data fs (fi # fl) = segment_data fs fi @ image_data fs fl"
  by (simp add: image_data_def)

lemma files_unchanged_Cons:
  "files_unchanged fs (fi # fl) \<longleftrightarrow>
     (\<exists>d. file_data fs (name fi) = Some d \<and> length d = length_fi fi) \<and> files_unchanged fs fl"
  by (auto simp: files_unchanged_def split: option.splits)

lemma files_unchanged_segment:
  "files_unchanged fs fl \<Longrightarrow> fi \<in> set fl \<Longrightarrow>
     file_data fs (name fi) = Some (segment_data fs fi) \<and> length (segment_data fs fi) = length_fi fi"
  by (induction fl) (auto simp: files_unchanged_Cons segment_data_def)

lemma image_at_segment:
  "contiguous_from b fl \<Longrightarrow> files_unchanged fs fl \<Longrightarrow> find_offset_in fl pos = Some fi \<Longrightarrow>
     drop (pos - b) (image_data fs fl) =
       drop (pos - offset fi) (segment_data fs fi) @
       drop (offset fi + length_fi fi - b) (image_data fs fl)"
proof (induction fl arbitrary: b)
  case Nil
  then show ?case by simp
next
  case (Cons a fl)
  from Cons.prems have a: "offset a = b" "contiguous_from (b + length_fi a) fl"
    and u: "files_unchanged fs fl" and la: "length (segment_data fs a) = length_fi a"
    by (auto simp: files_unchanged_Cons segment_data_def)
  show ?case
  proof (cases "offset a \<le> pos \<and> pos < offset a + length_fi a")
    case True
    with Cons.prems have "fi = a" by simp
    with True a la show ?thesis by (simp add: image_data_Cons)
  next
    case False
    with Cons.prems(3) have f: "find_offset_in fl pos = Some fi" by (auto split: if_splits)
    from find_offset_in_Some [OF f] have "fi \<in> set fl" "offset fi \<le> pos"
      by (auto simp: contains_offset_def)
    with contiguous_from_bounds [OF a(2)] have ge: "b + length_fi a \<le> offset fi" "b + length_fi a \<le> pos"
      by fastforce+
    from Cons.IH [OF a(2) u f] ge la show ?thesis
      by (simp add: image_data_Cons)
  qed
qed

lemma image_past_segments:
  "contiguous_from b fl \<Longrightarrow> files_unchanged fs fl \<Longrightarrow> find_offset_in fl pos = None \<Longrightarrow>
     b \<le> pos \<Longrightarrow> b + length (image_data fs fl) \<le> pos"
proof (induction fl arbitrary: b)
  case Nil
  then show ?case by (simp add: image_data_def)
next
  case (Cons a fl)
  from Cons.prems have a: "offset a = b" "contiguous_from (b + length_fi a) fl"
    and u: "files_unchanged fs fl" and la: "length (segment_data fs a) = length_fi a"
    by (auto simp: files_unchanged_Cons segment_data_def)
  from Cons.prems a have n: "find_offset_in fl pos = None" "b + length_fi a \<le> pos"
    by (auto split: if_splits)
  from Cons.IH [OF a(2) u n] la show ?case by (simp add: image_data_Cons)
qed

lemma select_file_coherent:
  assumes "cache_coherent st" "fi \<in> set (file_list st)" "file_data fs (name fi) = Some d"
  shows "\<exists>st1. select_file fs st fi = (st1, None) \<and> current_fd st1 = Some (name fi)
           \<and> current_file_name st1 = name fi \<and> file_list st1 = file_list st
           \<and> raw_filesize st1 = raw_filesize st \<and> pagesize st1 = pagesize st
           \<and> margin st1 = margin st \<and> image_fname st1 = image_fname st"
proof (cases "name fi = current_file_name st")
  case True
  with assms(1,2) have "current_fd st = Some (name fi)"
    by (auto simp: cache_coherent_def list_all_iff)
  with True show ?thesis by (simp add: select_file_def)
next
  case False
  from assms(3) have "fs_stat fs (name fi) \<noteq> None"
    by (auto simp: file_data_def split: option.splits)
  with False show ?thesis by (auto simp: select_file_def)
qed

lemma pread_reads_image:
  assumes "contiguous_from 0 (file_list st)" "files_unchanged fs (file_list st)" "cache_coherent st"
  shows "\<exists>st'. pread fs st n pos =
            Some (st', Inr (int (length (take n (drop pos (image_data fs (file_list st))))),
                            take n (drop pos (image_data fs (file_list st)))))
          \<and> file_list st' = file_list st \<and> cache_coherent st' \<and> raw_filesize st' = raw_filesize st
          \<and> pagesize st' = pagesize st \<and> margin st' = margin st \<and> image_fname st' = image_fname st"
  using assms
proof (induction n arbitrary: st pos rule: less_induct)
  case (less n)
  let ?fl = "file_list st"
  let ?img = "image_data fs ?fl"
  show ?case
  proof (cases "find_offset st pos")
    case None
    then have "find_offset_in ?fl pos = None" by (simp add: find_offset_def)
    from image_past_segments [OF less.prems(1,2) this] have "length ?img \<le> pos" by simp
    then have "drop pos ?img = []" by simp
    with None less.prems(3) show ?thesis by (subst pread.simps) simp
  next
    case (Some fi)
    then have f: "find_offset_in ?fl pos = Some fi" by (simp add: find_offset_def)
    from find_offset_in_Some [OF f] have mem: "fi \<in> set ?fl"
      and rng: "offset fi \<le> pos" "pos < offset fi + length_fi fi"
      by (auto simp: contains_offset_def)
    let ?d = "segment_data fs fi"
    from files_unchanged_segment [OF less.prems(2) mem]
    have fd: "file_data fs (name fi) = Some ?d" and ld: "length ?d = length_fi fi" by auto
    from select_file_coherent [OF less.prems(3) mem fd]
    obtain st1 where s1: "select_file fs st fi = (st1, None)" "current_fd st1 = Some (name fi)"
      "current_file_name st1 = name fi" "file_list st1 = ?fl" "raw_filesize st1 = raw_filesize st"
      "pagesize st1 = pagesize st" "margin st1 = margin st" "image_fname st1 = image_fname st"
      by blast
    have c1: "cache_coherent st1" using s1 by (simp add: cache_coherent_def)
    let ?got = "take n (drop (pos - offset fi) ?d)"
    have p64: "pread64 fs (current_fd st1) n (pos - offset fi) = Some ?got"
      using s1 fd by (simp add: pread64_def)
    from image_at_segment [OF less.prems(1,2) f]
    have img: "drop pos ?img = drop (pos - offset fi) ?d @ drop (offset fi + length_fi fi) ?img"
      by simp
    show ?thesis
    proof (cases "length ?got = n")
      case True
      then have "n \<le> length (drop (pos - offset fi) ?d)" by simp
      then have "take n (drop pos ?img) = ?got" by (simp add: img)
      with Some s1 p64 True c1 show ?thesis by (subst pread.simps) simp
    next
      case False
      then have short: "length (drop (pos - offset fi) ?d) < n" by simp
      then have got: "?got = drop (pos - offset fi) ?d" by simp
      have lg: "length ?got = offset fi + length_fi fi - pos" using got ld rng by simp
      with rng have pos_got: "0 < length ?got" "pos + length ?got = offset fi + length_fi fi" by simp_all
      from short lg have lt: "n - length ?got < n" using pos_got by simp
      from less.IH [OF lt, of st1 "pos + length ?got"] less.prems(1,2) c1 s1
      obtain st2 where r: "pread fs st1 (n - length ?got) (pos + length ?got) =
            Some (st2, Inr (int (length (take (n - length ?got) (drop (pos + length ?got) ?img))),
                            take (n - length ?got) (drop (pos + length ?got) ?img)))"
          "file_list st2 = ?fl" "cache_coherent st2" "raw_filesize st2 = raw_filesize st"
          "pagesize st2 = pagesize st" "margin st2 = margin st" "image_fname st2 = image_fname st"
        by auto
      have tk: "take n (drop pos ?img) =
                  ?got @ take (n - length ?got) (drop (pos + length ?got) ?img)"
        using short pos_got(2) by (simp add: img got)
      have "pread fs st n pos = Some (st2, Inr (int (length (take n (drop pos ?img))), take n (drop pos ?img)))"
        apply (subst pread.simps)
        using Some s1 p64 False r(1) pos_got(1)
        apply (simp add: pread_combine_def tk del: take_drop)
        done
      with r show ?thesis by simp
    qed
  qed
qed

lemma add_file_invariants:
  assumes "add_file fs st p = Inr st'"
  shows "(contiguous_from 0 (file_list st) \<and> raw_filesize st = sum_list (map length_fi (file_list st))
            \<longrightarrow> contiguous_from 0 (file_list st') \<and> raw_filesize st' = sum_list (map length_fi (file_list st')))"
    and "files_unchanged fs (file_list st) \<longrightarrow> files_unchanged fs (file_list st')"
    and "current_file_name st' = current_file_name st" "current_fd st' = current_fd st"
    and "pagesize st' = pagesize st" "margin st' = margin st" "image_fname st' = image_fname st"
  using assms
  by (auto simp: add_file_def contiguous_from_append files_unchanged_def split: option.splits)

lemma add_file_raw_inv: "raw_inv fs st0 st \<Longrightarrow> add_file fs st p = Inr st' \<Longrightarrow> raw_inv fs st0 st'"
  using add_file_invariants [of fs st p st'] by (simp add: raw_inv_def)

lemma probe_files_raw_inv:
  assumes "probe_files fs templ num st = Some r"
  shows "raw_inv fs st0 st \<longrightarrow> (\<forall>st'. r = Inr st' \<longrightarrow> raw_inv fs st0 st')"
  using assms
  by (induction rule: probe_files.raw_induct [rotated 1, consumes 1])
     (auto split: if_splits sum.splits dest: add_file_raw_inv)

lemma open_raw_inv:
  assumes "open_raw fs (new_process_raw fname ps mg) = Some (Inr st)"
  shows "raw_inv fs (new_process_raw fname ps mg) st"
proof -
  let ?st0 = "new_process_raw fname ps mg"
  have i0: "raw_inv fs ?st0 ?st0"
    by (simp add: raw_inv_def new_process_raw_def files_unchanged_def)
  from assms obtain st1 where a: "add_file fs ?st0 (image_fname ?st0) = Inr st1"
    by (auto simp: open_raw_def split: sum.splits)
  from add_file_raw_inv [OF i0 a] have i1: "raw_inv fs ?st0 st1" .
  show ?thesis
  proof (cases "is_multipart_file (image_fname st1)")
    case False
    with assms a i1 show ?thesis by (simp add: open_raw_def)
  next
    case True
    with assms a obtain templ num where "probe_files fs templ num st1 = Some (Inr st)"
      by (auto simp: open_raw_def split: option.splits)
    from probe_files_raw_inv [OF this, of ?st0] i1 show ?thesis by simp
  qed
qed

lemma files_unchanged_names:
  "files_unchanged fs fl \<Longrightarrow> list_all (\<lambda>fi. name fi \<noteq> []) fl"
  by (induction fl) (auto simp: files_unchanged_Cons file_data_def fs_stat_def)

lemma open_raw_coherent:
  assumes "open_raw fs (new_process_raw fname ps mg) = Some (Inr st)"
  shows "cache_coherent st"
  using open_raw_inv [OF assms] files_unchanged_names [of fs "file_list st"]
  by (simp add: raw_inv_def cache_coherent_def new_process_raw_def)

lemma contiguous_from_unique:
  "contiguous_from b fl \<Longrightarrow> fi \<in> set fl \<Longrightarrow> fj \<in> set fl \<Longrightarrow>
     contains_offset fi pos \<Longrightarrow> contains_offset fj pos \<Longrightarrow> fi = fj"
proof (induction fl arbitrary: b)
  case Nil
  then show ?case by simp
next
  case (Cons a fl)
  then have c: "offset a = b" "contiguous_from (b + length_fi a) fl" by simp_all
  have out: "\<not> contains_offset a pos" if "fk \<in> set fl" "contains_offset fk pos" for fk
    using contiguous_from_bounds [OF c(2) that(1)] that(2) c(1) by (simp add: contains_offset_def)
  from Cons.prems out Cons.IH [OF c(2)] show ?case by auto
qed

lemma contiguous_from_sorted:
  "contiguous_from b fl \<Longrightarrow> sorted (map offset fl)"
proof (induction fl arbitrary: b)
  case Nil
  then show ?case by simp
next
  case (Cons a fl)
  then have c: "offset a = b" "contiguous_from (b + length_fi a) fl" by simp_all
  from contiguous_from_bounds [OF c(2)] c(1) have "\<forall>fk \<in> set fl. offset a \<le> offset fk" by fastforce
  with Cons.IH [OF c(2)] show ?case by simp
qed

lemma contiguous_from_disjoint:
  "contiguous_from b fl \<Longrightarrow> i < j \<Longrightarrow> j < length fl \<Longrightarrow>
     offset (fl ! i) + length_fi (fl ! i) \<le> offset (fl ! j)"
proof (induction fl arbitrary: b i j)
  case Nil
  then show ?case by simp
next
  case (Cons a fl)
  then have c: "offset a = b" "contiguous_from (b + length_fi a) fl" by simp_all
  from Cons.prems obtain j' where j: "j = Suc j'" "j' < length fl" by (cases j) auto
  show ?case
  proof (cases i)
    case 0
    from contiguous_from_bounds [OF c(2), of "fl ! j'"] j c(1) 0 show ?thesis by simp
  next
    case (Suc i')
    with Cons.prems j Cons.IH [OF c(2), of i' j'] show ?thesis by simp
  qed
qed

lemma contiguous_from_adjacent:
  "contiguous_from b fl \<Longrightarrow> Suc i < length fl \<Longrightarrow>
     offset (fl ! Suc i) = offset (fl ! i) + length_fi (fl ! i)"
proof (induction fl arbitrary: b i)
  case Nil
  then show ?case by simp
next
  case (Cons a fl)
  then have c: "offset a = b" "contiguous_from (b + length_fi a) fl" by simp_all
  show ?case
  proof (cases i)
    case 0
    with Cons.prems c show ?thesis by (cases fl) simp_all
  next
    case (Suc i')
    with Cons.prems Cons.IH [OF c(2), of i'] show ?thesis by simp
  qed
qed

lemma pread_no_segment:
  "find_offset st pos = None \<Longrightarrow> pread fs st n pos = Some (st, Inr (0, []))"
  by (subst pread.simps) simp

lemma pread_spans_boundary:
  assumes "contiguous_from 0 (file_list st)" "files_unchanged fs (file_list st)" "cache_coherent st"
    and "find_offset st pos = Some fi" "offset fi + length_fi fi - pos < n"
  shows "\<exists>st1 st' r2. cache_coherent st1 \<and> file_list st1 = file_list st
           \<and> pread fs st1 (n - (offset fi + length_fi fi - pos)) (offset fi + length_fi fi) =
                Some (st', Inr (int (length r2), r2))
           \<and> pread fs st n pos =
                Some (st', Inr (int (offset fi + length_fi fi - pos) + int (length r2),
                                drop (pos - offset fi) (segment_data fs fi) @ r2))"
proof -
  from assms(4) have f: "find_offset_in (file_list st) pos = Some fi" by (simp add: find_offset_def)
  from find_offset_in_Some [OF f] have mem: "fi \<in> set (file_list st)"
    and rng: "offset fi \<le> pos" "pos < offset fi + length_fi fi"
    by (auto simp: contains_offset_def)
  let ?d = "segment_data fs fi"
  let ?rem = "offset fi + length_fi fi - pos"
  from files_unchanged_segment [OF assms(2) mem]
  have fd: "file_data fs (name fi) = Some ?d" and ld: "length ?d = length_fi fi" by auto
  from select_file_coherent [OF assms(3) mem fd]
  obtain st1 where s1: "select_file fs st fi = (st1, None)" "current_fd st1 = Some (name fi)"
    "current_file_name st1 = name fi" "file_list st1 = file_list st"
    by blast
  have c1: "cache_coherent st1" using s1 by (simp add: cache_coherent_def)
  have got: "take n (drop (pos - offset fi) ?d) = drop (pos - offset fi) ?d"
    using assms(5) ld rng by simp
  have lg: "length (drop (pos - offset fi) ?d) = ?rem" using ld rng by simp
  have p64: "pread64 fs (current_fd st1) n (pos - offset fi) = Some (drop (pos - offset fi) ?d)"
    using s1 fd got by (simp add: pread64_def)
  from pread_reads_image [of st1 fs "n - ?rem" "offset fi + length_fi fi"] assms(1,2) c1 s1
  obtain st' r2 where r: "pread fs st1 (n - ?rem) (offset fi + length_fi fi) =
      Some (st', Inr (int (length r2), r2))"
    by auto
  have pg: "pos + ?rem = offset fi + length_fi fi" using rng by simp
  have "pread fs st n pos =
          Some (st', Inr (int ?rem + int (length r2), drop (pos - offset fi) ?d @ r2))"
    apply (subst pread.simps)
    using assms(4,5) s1(1) p64 lg r pg rng
    apply (simp add: pread_combine_def)
    done
  with c1 s1(4) r show ?thesis by blast
qed

lemma pread_three_segments:
  assumes "contiguous_from 0 (file_list st)" "files_unchanged fs (file_list st)" "cache_coherent st"
    and "file_list st = [f0, f1, f2]"
    and "length_fi f0 = 2 ^ 20" "length_fi f1 = 2 ^ 20" "length_fi f2 = 2 ^ 20"
  shows "\<exists>st'. pread fs st 512 (2 ^ 20 - 256) =
           Some (st', Inr (512, drop (2 ^ 20 - 256) (segment_data fs f0) @ take 256 (segment_data fs f1)))"
proof -
  from assms(2,4,5,6,7) have l: "length (segment_data fs f0) = 2 ^ 20"
    "length (segment_data fs f1) = 2 ^ 20"
    by (auto simp: files_unchanged_Cons segment_data_def)
  have img: "image_data fs (file_list st) = segment_data fs f0 @ segment_data fs f1 @ segment_data fs f2"
    using assms(4) by (simp add: image_data_def)
  have "take 512 (drop (2 ^ 20 - 256) (image_data fs (file_list st))) =
          drop (2 ^ 20 - 256) (segment_data fs f0) @ take 256 (segment_data fs f1)"
    using l by (simp add: img)
  moreover from this l
  have "length (take 512 (drop (2 ^ 20 - 256) (image_data fs (file_list st)))) = 512"
    by simp
  ultimately show ?thesis
    using pread_reads_image [OF assms(1,2,3), of 512 "2 ^ 20 - 256"] by auto
qed

lemma names_1MiB:
  "make_list_template ''img.000'' = Some ((''img.'', []), Suc 0)"
  "snprintf_03d (''img.'', []) (Suc 0) = ''img.001''"
  "snprintf_03d (''img.'', []) (Suc (Suc 0)) = ''img.002''"
  "snprintf_03d (''img.'', []) (Suc (Suc (Suc 0))) = ''img.003''"
  "is_multipart_file ''img.000''"
  by code_simp+

lemma probe_1MiB:
  "probe_files img_1MiB (''img.'', []) (Suc 0)
     (split_1MiB\<lparr>file_list := take 1 (file_list split_1MiB), raw_filesize := 1048576\<rparr>) =
   Some (Inr split_1MiB)"
  apply (subst probe_files.simps)
  apply (simp add: names_1MiB access_R_OK_def add_file_def file_data_def fs_stat_def img_1MiB_def split_1MiB_def)
  apply (subst probe_files.simps)
  apply (simp add: names_1MiB access_R_OK_def add_file_def file_data_def fs_stat_def)
  apply (subst probe_files.simps)
  apply (simp add: names_1MiB access_R_OK_def add_file_def file_data_def fs_stat_def)
  done

lemma open_1MiB: "open_raw img_1MiB (new_process_raw ''img.000'' 4096 1024) = Some (Inr split_1MiB)"
  using probe_1MiB
  by (simp add: open_raw_def new_process_raw_def add_file_def file_data_def fs_stat_def
      img_1MiB_def names_1MiB split_1MiB_def)

lemma wrap_diff:
  fixes a b M :: nat
  assumes "b \<le> a" "a < M"
  shows "(a + M - b) mod M = a - b"
proof -
  have "a + M - b = (a - b) + M" using assms(1) by (simp only: Nat.add_diff_assoc2)
  moreover have "a - b < M" using assms(2) by (rule less_imp_diff_less)
  ultimately show ?thesis by (simp only: mod_add_self2 mod_less)
qed

lemma int_of_ssize_id: "- (2 ^ 31) \<le> n \<Longrightarrow> n < 2 ^ 31 \<Longrightarrow> int_of_ssize n = n"
  unfolding int_of_ssize_def
  by (simp add: signed_take_bit_int_eq_self sint_sbintrunc')

lemma sbuf_alloc_with_count:
  assumes "raw_offset it \<le> raw_filesize st" "raw_filesize st < 2 ^ 64"
  shows "sbuf_alloc_with reader st it =
     Option.bind (reader st (page_count st it) (raw_offset it))
           (\<lambda>(st', r).
              case r of
                Inl e \<Rightarrow> Some (st', it, Inl e)
              | Inr (count_read, stored) \<Rightarrow>
                  if int_of_ssize count_read = 0 then Some (st', it\<lparr>eof := True\<rparr>, Inl EndOfImage)
                  else if int_of_ssize count_read < 0 then Some (st', it, Inl ReadError)
                  else Some (st', it,
                         Inr \<lparr>pos0 = ([], raw_offset it), buf = stored, bufsize = page_count st it,
                              sbuf_pagesize = min (pagesize st) (page_count st it)\<rparr>))"
proof -
  have m: "(raw_filesize st + 2 ^ 64 - raw_offset it) mod 2 ^ 64 = raw_filesize st - raw_offset it"
    using wrap_diff [of "raw_offset it" "raw_filesize st" "2 ^ 64"] assms by blast
  have c: "(if raw_filesize st < raw_offset it + (pagesize st + margin st)
            then (raw_filesize st + 2 ^ 64 - raw_offset it) mod 2 ^ 64
            else pagesize st + margin st) = page_count st it"
    unfolding m page_count_def using assms(1) by (auto simp: min_def)
  have p: "(if pagesize st > page_count st it then page_count st it else pagesize st)
             = min (pagesize st) (page_count st it)"
    by (simp add: min_def)
  show ?thesis
    unfolding sbuf_alloc_with_def Let_def c p get_pos0_def ..
qed

lemma sbuf_alloc_reader:
  assumes "raw_offset it \<le> raw_filesize st" "raw_filesize st < 2 ^ 64"
    and "reader st (page_count st it) (raw_offset it) = Some (st', Inr (n, stored))"
    and "- (2 ^ 31) \<le> n" "n < 2 ^ 31"
  shows "sbuf_alloc_with reader st it =
           (if n = 0 then Some (st', it\<lparr>eof := True\<rparr>, Inl EndOfImage)
            else if n < 0 then Some (st', it, Inl ReadError)
            else Some (st', it,
                   Inr \<lparr>pos0 = ([], raw_offset it), buf = stored, bufsize = page_count st it,
                        sbuf_pagesize = min (pagesize st) (page_count st it)\<rparr>))"
  using assms(3) by (simp add: sbuf_alloc_with_count [OF assms(1,2)] int_of_ssize_id [OF assms(4,5)])

lemma sbuf_alloc_page:
  assumes "contiguous_from 0 (file_list st)" "files_unchanged fs (file_list st)" "cache_coherent st"
    and "raw_filesize st = sum_list (map length_fi (file_list st))"
    and "raw_offset it \<le> raw_filesize st" "raw_filesize st < 2 ^ 64"
    and "pagesize st + margin st < 2 ^ 31"
  shows "length (take (page_count st it) (drop (raw_offset it) (image_data fs (file_list st))))
           = page_count st it
      \<and> (\<exists>st'. sbuf_alloc fs st it =
           (if page_count st it = 0 then Some (st', it\<lparr>eof := True\<rparr>, Inl EndOfImage)
            else Some (st', it,
                   Inr \<lparr>pos0 = ([], raw_offset it),
                        buf = take (page_count st it) (drop (raw_offset it) (image_data fs (file_list st))),
                        bufsize = page_count st it,
                        sbuf_pagesize = min (pagesize st) (page_count st it)\<rparr>)))"
proof -
  let ?r = "take (page_count st it) (drop (raw_offset it) (image_data fs (file_list st)))"
  have len: "length ?r = page_count st it"
    using length_image_data [OF assms(2)] assms(4) by (simp add: page_count_def)
  from pread_reads_image [OF assms(1,2,3), of "page_count st it" "raw_offset it"]
  obtain st' where p: "pread fs st (page_count st it) (raw_offset it) =
      Some (st', Inr (int (length ?r), ?r))" by blast
  have b: "page_count st it < 2 ^ 31" using assms(7) by (simp add: page_count_def)
  then have "int (page_count st it) < 2 ^ 31" by (metis of_nat_less_numeral_power_cancel_iff)
  with sbuf_alloc_reader [OF assms(5,6), of "pread fs" st' "int (page_count st it)" ?r] p len
  have "sbuf_alloc fs st it =
           (if page_count st it = 0 then Some (st', it\<lparr>eof := True\<rparr>, Inl EndOfImage)
            else Some (st', it,
                   Inr \<lparr>pos0 = ([], raw_offset it), buf = ?r, bufsize = page_count st it,
                        sbuf_pagesize = min (pagesize st) (page_count st it)\<rparr>))"
    by (simp add: sbuf_alloc_def)
  with len show ?thesis by blast
qed

text \<open>
  C8: for every split-raw source after \<^verbatim>\<open>open()\<close>, the segments collected by
  \<^verbatim>\<open>add_file\<close> are ordered by global offset, non-overlapping and contiguous (the first
  starts at 0, each next one where the one before ends), \<^verbatim>\<open>image_size()\<close> is the sum of
  the segment lengths, and for every offset \<^verbatim>\<open>find_offset\<close> returns the one segment
  whose range holds the offset, or null when no segment holds it.
\<close>

theorem open_raw_segments:
  assumes "open_raw fs (new_process_raw fname ps mg) = Some (Inr st)"
  shows "contiguous_from 0 (file_list st)
    \<and> sorted (map offset (file_list st))
    \<and> (\<forall>i j. i < j \<and> j < length (file_list st) \<longrightarrow>
          offset (file_list st ! i) + length_fi (file_list st ! i) \<le> offset (file_list st ! j))
    \<and> (\<forall>i. Suc i < length (file_list st) \<longrightarrow>
          offset (file_list st ! Suc i) = offset (file_list st ! i) + length_fi (file_list st ! i))
    \<and> image_size st = sum_list (map length_fi (file_list st))
    \<and> (\<forall>pos. case find_offset st pos of
                None \<Rightarrow> \<forall>fi \<in> set (file_list st). \<not> contains_offset fi pos
              | Some fi \<Rightarrow> fi \<in> set (file_list st) \<and> contains_offset fi pos
                   \<and> (\<forall>fj \<in> set (file_list st). contains_offset fj pos \<longrightarrow> fj = fi))"
proof -
  from open_raw_inv [OF assms]
  have c: "contiguous_from 0 (file_list st)"
    and s: "raw_filesize st = sum_list (map length_fi (file_list st))"
    by (simp_all add: raw_inv_def)
  have f: "case find_offset st pos of
                None \<Rightarrow> \<forall>fi \<in> set (file_list st). \<not> contains_offset fi pos
              | Some fi \<Rightarrow> fi \<in> set (file_list st) \<and> contains_offset fi pos
                   \<and> (\<forall>fj \<in> set (file_list st). contains_offset fj pos \<longrightarrow> fj = fi)" for pos
  proof (cases "find_offset st pos")
    case None
    then show ?thesis using find_offset_in_None [of "file_list st" pos]
      by (simp add: find_offset_def)
  next
    case (Some fi)
    then have "find_offset_in (file_list st) pos = Some fi" by (simp add: find_offset_def)
    from find_offset_in_Some [OF this] contiguous_from_unique [OF c] Some
    show ?thesis by auto
  qed
  from c s f contiguous_from_sorted [OF c] contiguous_from_disjoint [OF c]
    contiguous_from_adjacent [OF c]
  show ?thesis by (simp add: image_size_def)
qed

theorem open_raw_segments_witness:
  "open_raw img_small (new_process_raw ''img.000'' 4 1) = Some (Inr split_small)
   \<and> contiguous_from 0 (file_list split_small)
   \<and> sorted (map offset (file_list split_small))
   \<and> image_size split_small = 6
   \<and> find_offset split_small 4 = Some \<lparr>name = ''img.001'', offset = 3, length_fi = 2\<rparr>
   \<and> find_offset split_small 6 = None"
proof -
  have o: "open_raw img_small (new_process_raw ''img.000'' 4 1) = Some (Inr split_small)"
    by code_simp
  from open_raw_segments [OF o] o show ?thesis
    by (simp add: split_small_def find_offset_def image_size_def)
qed

text \<open>
  C1: for a split-raw source whose files are as \<^verbatim>\<open>open()\<close> found them,
  \<^verbatim>\<open>pread(dst, n, off)\<close> returns 0 when no segment contains \<open>off\<close>; it always returns,
  and what it stores are the bytes of the image (the concatenated segments) from \<open>off\<close>
  on, at most \<open>n\<close> of them, the count being their number; when the read goes past the
  end of the segment that contains \<open>off\<close>, the result is the rest of that segment followed
  by what the recursive call reads at the start of the next, and the count is the total;
  so for three segments of 1 MiB a read of 512 bytes at 1 MiB - 256 returns 512 bytes:
  the last 256 of the first segment, then the first 256 of the second.
\<close>

theorem pread_split_raw:
  assumes "contiguous_from 0 (file_list st)" "files_unchanged fs (file_list st)" "cache_coherent st"
  shows "(find_offset st pos = None \<longrightarrow> pread fs st n pos = Some (st, Inr (0, [])))
    \<and> (\<exists>st'. pread fs st n pos =
           Some (st', Inr (int (length (take n (drop pos (image_data fs (file_list st))))),
                           take n (drop pos (image_data fs (file_list st)))))
         \<and> file_list st' = file_list st \<and> cache_coherent st')
    \<and> (\<forall>fi. find_offset st pos = Some fi \<and> offset fi + length_fi fi - pos < n \<longrightarrow>
          (\<exists>st1 st' r2. cache_coherent st1 \<and> file_list st1 = file_list st
             \<and> pread fs st1 (n - (offset fi + length_fi fi - pos)) (offset fi + length_fi fi) =
                  Some (st', Inr (int (length r2), r2))
             \<and> pread fs st n pos =
                  Some (st', Inr (int (offset fi + length_fi fi - pos) + int (length r2),
                                  drop (pos - offset fi) (segment_data fs fi) @ r2))))
    \<and> (\<forall>f0 f1 f2. file_list st = [f0, f1, f2] \<and> length_fi f0 = 1048576
            \<and> length_fi f1 = 1048576 \<and> length_fi f2 = 1048576 \<longrightarrow>
          (\<exists>st'. pread fs st 512 (1048576 - 256) =
             Some (st', Inr (512, drop (1048576 - 256) (segment_data fs f0)
                                   @ take 256 (segment_data fs f1)))))"
proof -
  have a: "find_offset st pos = None \<longrightarrow> pread fs st n pos = Some (st, Inr (0, []))"
    by (simp add: pread_no_segment)
  from pread_reads_image [OF assms, of n pos]
  have b: "\<exists>st'. pread fs st n pos =
           Some (st', Inr (int (length (take n (drop pos (image_data fs (file_list st))))),
                           take n (drop pos (image_data fs (file_list st)))))
         \<and> file_list st' = file_list st \<and> cache_coherent st'"
    by blast
  have c: "\<exists>st1 st' r2. cache_coherent st1 \<and> file_list st1 = file_list st
             \<and> pread fs st1 (n - (offset fi + length_fi fi - pos)) (offset fi + length_fi fi) =
                  Some (st', Inr (int (length r2), r2))
             \<and> pread fs st n pos =
                  Some (st', Inr (int (offset fi + length_fi fi - pos) + int (length r2),
                                  drop (pos - offset fi) (segment_data fs fi) @ r2))"
    if "find_offset st pos = Some fi" "offset fi + length_fi fi - pos < n" for fi
    using pread_spans_boundary [OF assms that] .
  have d: "\<exists>st'. pread fs st 512 (1048576 - 256) =
             Some (st', Inr (512, drop (1048576 - 256) (segment_data fs f0)
                                   @ take 256 (segment_data fs f1)))"
    if "file_list st = [f0, f1, f2]" "length_fi f0 = 1048576" "length_fi f1 = 1048576"
      "length_fi f2 = 1048576" for f0 f1 f2
    using pread_three_segments [OF assms, of f0 f1 f2] that by simp
  from a b c d show ?thesis by blast
qed

theorem pread_split_raw_witness:
  "open_raw img_1MiB (new_process_raw ''img.000'' 4096 1024) = Some (Inr split_1MiB)
   \<and> (\<exists>st'. pread img_1MiB split_1MiB 512 1048320 =
         Some (st', Inr (512, replicate 256 0xA0 @ replicate 256 0xB1)))
   \<and> pread img_1MiB split_1MiB 512 3145728 = Some (split_1MiB, Inr (0, []))"
proof -
  have c: "contiguous_from 0 (file_list split_1MiB)"
    by (simp add: split_1MiB_def)
  have u: "files_unchanged img_1MiB (file_list split_1MiB)"
    by (simp add: split_1MiB_def img_1MiB_def files_unchanged_def file_data_def fs_stat_def)
  have h: "cache_coherent split_1MiB"
    by (simp add: split_1MiB_def cache_coherent_def)
  have s: "segment_data img_1MiB \<lparr>name = ''img.000'', offset = 0, length_fi = 1048576\<rparr>
             = replicate 1048576 0xA0"
    "segment_data img_1MiB \<lparr>name = ''img.001'', offset = 1048576, length_fi = 1048576\<rparr>
             = replicate 1048576 0xB1"
    by (simp_all add: segment_data_def img_1MiB_def file_data_def fs_stat_def)
  have n: "find_offset split_1MiB 3145728 = None"
    by (simp add: split_1MiB_def find_offset_def)
  from pread_split_raw [OF c u h, of 3145728 512] n
  have z: "pread img_1MiB split_1MiB 512 3145728 = Some (split_1MiB, Inr (0, []))"
    by blast
  from pread_split_raw [OF c u h, of 0 0]
  have "\<exists>st'. pread img_1MiB split_1MiB 512 (1048576 - 256) =
             Some (st', Inr (512, drop (1048576 - 256) (replicate 1048576 0xA0)
                                   @ take 256 (replicate 1048576 0xB1)))"
    using s by (simp add: split_1MiB_def)
  then have "\<exists>st'. pread img_1MiB split_1MiB 512 1048320 =
         Some (st', Inr (512, replicate 256 0xA0 @ replicate 256 0xB1))"
    by simp
  with z open_1MiB show ?thesis by blast
qed

text \<open>
  Reading the truncated file: the first read stores 5 bytes, and every further call asks
  for the remaining 5 at offset 5, which the segment list still places inside the file,
  reads nothing and calls itself again with the same arguments.
\<close>

lemma pread_stale_never_returns:
  assumes "pread fs st bytes offs = Some y"
  shows "\<not> (fs = truncated_fs \<and> stale_reading st \<and> bytes = 5 \<and> offs = 5)"
  using assms
proof (induction rule: pread.raw_induct [rotated 1, consumes 1])
  case (1 pread' fs st bytes offs y)
  show ?case
  proof
    assume a: "fs = truncated_fs \<and> stale_reading st \<and> bytes = 5 \<and> offs = 5"
    then have f: "find_offset st offs = Some \<lparr>name = ''img'', offset = 0, length_fi = 10\<rparr>"
      by (simp add: find_offset_def stale_reading_def)
    define st1 where "st1 = (if current_file_name st = ''img'' then st
         else st\<lparr>current_file_name := ''img'', current_fd := Some ''img''\<rparr>)"
    have s: "select_file fs st \<lparr>name = ''img'', offset = 0, length_fi = 10\<rparr> = (st1, None)"
      using a by (simp add: select_file_def st1_def truncated_fs_def fs_stat_def)
    have s2: "stale_reading st1" and s3: "current_fd st1 = Some ''img''"
      using a by (simp_all add: stale_reading_def st1_def)
    have p: "pread64 fs (current_fd st1) bytes (offs - 0) = Some []"
      using a s3 by (simp add: pread64_def file_data_def fs_stat_def truncated_fs_def)
    from "1.hyps" f s p a
    obtain y' where "pread' fs st1 5 5 = Some y'"
      by (auto simp: bind_eq_Some_conv)
    from "1.IH" [OF this] a s2 show False by simp
  qed
qed

lemma pread_stale_diverges: "pread truncated_fs stale_raw 10 0 = None"
proof (rule ccontr)
  assume "pread truncated_fs stale_raw 10 0 \<noteq> None"
  then obtain y where y: "pread truncated_fs stale_raw 10 0 = Some y" by auto
  have f: "find_offset stale_raw 0 = Some \<lparr>name = ''img'', offset = 0, length_fi = 10\<rparr>"
    by (simp add: find_offset_def stale_raw_def)
  let ?st1 = "stale_raw\<lparr>current_file_name := ''img'', current_fd := Some ''img''\<rparr>"
  have s: "select_file truncated_fs stale_raw \<lparr>name = ''img'', offset = 0, length_fi = 10\<rparr> = (?st1, None)"
    by (simp add: select_file_def stale_raw_def truncated_fs_def fs_stat_def)
  have p: "pread64 truncated_fs (Some ''img'') 10 0 = Some [1, 2, 3, 4, 5]"
    by (simp add: pread64_def file_data_def fs_stat_def truncated_fs_def)
  have u: "pread truncated_fs stale_raw 10 0 =
      Option.bind (pread truncated_fs ?st1 5 5) (pread_combine [1, 2, 3, 4, 5])"
    proof -
    have n: "Suc (Suc (Suc (Suc (Suc 0)))) = 5" by simp
    show ?thesis
      by (subst pread.simps, simp add: f s p, simp only: n)
  qed
  from y obtain y' where "pread truncated_fs ?st1 5 5 = Some y'"
    unfolding u by (auto simp: bind_eq_Some_conv)
  from pread_stale_never_returns [OF this] show False
    by (simp add: stale_reading_def stale_raw_def)
qed

lemma sbuf_alloc_stale:
  "sbuf_alloc truncated_fs stale_raw \<lparr>raw_offset = 0, file_number = 0, eof = False\<rparr> = None"
proof -
  have "pagesize stale_raw + margin stale_raw = 10" "raw_filesize stale_raw = 10"
    by (simp_all add: stale_raw_def)
  then show ?thesis
    by (simp add: sbuf_alloc_def sbuf_alloc_with_def pread_stale_diverges)
qed

text \<open>
  C4, as stated: \<^verbatim>\<open>sbuf_alloc\<close> fails with \<^verbatim>\<open>ReadError\<close> on a short read.  This fails:
  the only test after the read is on the sign of the count.  With a reader that stores
  5 of the 10 bytes asked for, the page buffer (of size 10) is returned and no error is
  raised; and with \<^verbatim>\<open>process_raw::pread\<close> itself over a file that has lost its second
  half since \<^verbatim>\<open>open()\<close>, where the system call comes back short, \<^verbatim>\<open>sbuf_alloc\<close> raises
  nothing either: the read never returns.
\<close>

theorem sbuf_alloc_short_read_counterexample:
  "sbuf_alloc_with (\<lambda>st n pos. Some (st, Inr (5, [1, 2, 3, 4, 5])))
      (new_process_raw ''img'' 10 0\<lparr>raw_filesize := 10\<rparr>)
      \<lparr>raw_offset = 0, file_number = 0, eof = False\<rparr> =
    Some (new_process_raw ''img'' 10 0\<lparr>raw_filesize := 10\<rparr>,
          \<lparr>raw_offset = 0, file_number = 0, eof = False\<rparr>,
          Inr \<lparr>pos0 = ([], 0), buf = [1, 2, 3, 4, 5], bufsize = 10, sbuf_pagesize = 10\<rparr>)
   \<and> pread64 truncated_fs (Some ''img'') 10 0 = Some [1, 2, 3, 4, 5]
   \<and> sbuf_alloc truncated_fs stale_raw \<lparr>raw_offset = 0, file_number = 0, eof = False\<rparr> = None"
  by (simp add: sbuf_alloc_stale)
    (simp add: sbuf_alloc_with_def new_process_raw_def int_of_ssize_def get_pos0_def
      pread64_def file_data_def fs_stat_def truncated_fs_def)

text \<open>
  C4, amended: for every iterator position within an image whose files are as
  \<^verbatim>\<open>open()\<close> found them, with \<open>pagesize + margin\<close> below \<open>2 ^ 31\<close>, \<^verbatim>\<open>sbuf_alloc\<close>
  returns: it reads \<open>pagesize + margin\<close> bytes clipped to the end of the image and
  yields a new page buffer with exactly these bytes, whose page size is the page size
  clipped to the byte count, unless the count is zero, when it sets \<open>eof\<close> and fails
  with \<^verbatim>\<open>EndOfImage\<close>.  Whatever reader is in place, for a count it reports within the
  range of \<^verbatim>\<open>int\<close>: \<^verbatim>\<open>EndOfImage\<close> is raised exactly for the count zero, \<^verbatim>\<open>ReadError\<close>
  exactly for a negative count, and a positive count, even one smaller than asked for,
  yields the buffer.
\<close>

theorem sbuf_alloc_outcomes:
  assumes "contiguous_from 0 (file_list st)" "files_unchanged fs (file_list st)" "cache_coherent st"
    and "raw_filesize st = sum_list (map length_fi (file_list st))"
    and "raw_offset it \<le> raw_filesize st" "raw_filesize st < 2 ^ 64"
    and "pagesize st + margin st < 2 ^ 31"
  shows "length (take (page_count st it) (drop (raw_offset it) (image_data fs (file_list st))))
           = page_count st it
      \<and> (\<exists>st'. sbuf_alloc fs st it =
           (if page_count st it = 0 then Some (st', it\<lparr>eof := True\<rparr>, Inl EndOfImage)
            else Some (st', it,
                   Inr \<lparr>pos0 = ([], raw_offset it),
                        buf = take (page_count st it) (drop (raw_offset it) (image_data fs (file_list st))),
                        bufsize = page_count st it,
                        sbuf_pagesize = min (pagesize st) (page_count st it)\<rparr>)))
      \<and> (\<forall>reader st' n stored.
            reader st (page_count st it) (raw_offset it) = Some (st', Inr (n, stored))
              \<and> - (2 ^ 31) \<le> n \<and> n < 2 ^ 31 \<longrightarrow>
            sbuf_alloc_with reader st it =
              (if n = 0 then Some (st', it\<lparr>eof := True\<rparr>, Inl EndOfImage)
               else if n < 0 then Some (st', it, Inl ReadError)
               else Some (st', it,
                      Inr \<lparr>pos0 = ([], raw_offset it), buf = stored, bufsize = page_count st it,
                           sbuf_pagesize = min (pagesize st) (page_count st it)\<rparr>)))"
  using sbuf_alloc_page [OF assms] sbuf_alloc_reader [OF assms(5,6)] by blast

theorem sbuf_alloc_outcomes_witness:
  "(\<exists>st'. sbuf_alloc img_small split_small \<lparr>raw_offset = 4, file_number = 0, eof = False\<rparr> =
       Some (st', \<lparr>raw_offset = 4, file_number = 0, eof = False\<rparr>,
             Inr \<lparr>pos0 = ([], 4), buf = [5, 6], bufsize = 2, sbuf_pagesize = 2\<rparr>))
   \<and> (\<exists>st'. sbuf_alloc img_small split_small \<lparr>raw_offset = 6, file_number = 0, eof = False\<rparr> =
       Some (st', \<lparr>raw_offset = 6, file_number = 0, eof = True\<rparr>, Inl EndOfImage))
   \<and> sbuf_alloc_with (\<lambda>st n pos. Some (st, Inr (- 1, [])))
        split_small \<lparr>raw_offset = 4, file_number = 0, eof = False\<rparr> =
       Some (split_small, \<lparr>raw_offset = 4, file_number = 0, eof = False\<rparr>, Inl ReadError)
   \<and> sbuf_alloc_with (\<lambda>st n pos. Some (st, Inr (1, [5])))
        split_small \<lparr>raw_offset = 4, file_number = 0, eof = False\<rparr> =
       Some (split_small, \<lparr>raw_offset = 4, file_number = 0, eof = False\<rparr>,
             Inr \<lparr>pos0 = ([], 4), buf = [5], bufsize = 2, sbuf_pagesize = 2\<rparr>)"
proof -
  have c: "contiguous_from 0 (file_list split_small)"
    by (simp add: split_small_def)
  have u: "files_unchanged img_small (file_list split_small)"
    by (simp add: split_small_def img_small_def files_unchanged_def file_data_def fs_stat_def)
  have h: "cache_coherent split_small"
    by (simp add: split_small_def cache_coherent_def)
  have z: "raw_filesize split_small = sum_list (map length_fi (file_list split_small))"
    "raw_filesize split_small < 2 ^ 64" "pagesize split_small + margin split_small < 2 ^ 31"
    by (simp_all add: split_small_def)
  have i: "image_data img_small (file_list split_small) = [1, 2, 3, 4, 5, 6]"
    by (simp add: image_data_def segment_data_def split_small_def img_small_def file_data_def
        fs_stat_def)
  have p: "page_count split_small \<lparr>raw_offset = 4, file_number = 0, eof = False\<rparr> = 2"
    "page_count split_small \<lparr>raw_offset = 6, file_number = 0, eof = False\<rparr> = 0"
    "pagesize split_small = 4"
    by (simp_all add: page_count_def split_small_def)
  have r4: "raw_offset \<lparr>raw_offset = 4, file_number = 0, eof = False\<rparr> \<le> raw_filesize split_small"
    and r6: "raw_offset \<lparr>raw_offset = 6, file_number = 0, eof = False\<rparr> \<le> raw_filesize split_small"
    by (simp_all add: split_small_def)
  note t4 = sbuf_alloc_outcomes [OF c u h z(1) r4 z(2,3)]
  note t6 = sbuf_alloc_outcomes [OF c u h z(1) r6 z(2,3)]
  from t4 have a: "\<exists>st'. sbuf_alloc img_small split_small \<lparr>raw_offset = 4, file_number = 0, eof = False\<rparr> =
       Some (st', \<lparr>raw_offset = 4, file_number = 0, eof = False\<rparr>,
             Inr \<lparr>pos0 = ([], 4), buf = [5, 6], bufsize = 2, sbuf_pagesize = 2\<rparr>)"
    by (simp add: p i)
  from t6 have b: "\<exists>st'. sbuf_alloc img_small split_small \<lparr>raw_offset = 6, file_number = 0, eof = False\<rparr> =
       Some (st', \<lparr>raw_offset = 6, file_number = 0, eof = True\<rparr>, Inl EndOfImage)"
    by (simp add: p i)
  from t4 have rd: "sbuf_alloc_with reader split_small \<lparr>raw_offset = 4, file_number = 0, eof = False\<rparr> =
              (if n = 0 then Some (st', \<lparr>raw_offset = 4, file_number = 0, eof = True\<rparr>, Inl EndOfImage)
               else if n < 0 then Some (st', \<lparr>raw_offset = 4, file_number = 0, eof = False\<rparr>, Inl ReadError)
               else Some (st', \<lparr>raw_offset = 4, file_number = 0, eof = False\<rparr>,
                      Inr \<lparr>pos0 = ([], 4), buf = stored, bufsize = 2, sbuf_pagesize = 2\<rparr>))"
    if "reader split_small 2 4 = Some (st', Inr (n, stored))" "- (2 ^ 31) \<le> n" "n < 2 ^ 31"
    for reader st' n stored
    using that by (simp add: p)
  have "sbuf_alloc_with (\<lambda>st n pos. Some (st, Inr (- 1, [])))
        split_small \<lparr>raw_offset = 4, file_number = 0, eof = False\<rparr> =
       Some (split_small, \<lparr>raw_offset = 4, file_number = 0, eof = False\<rparr>, Inl ReadError)"
    using rd [of "\<lambda>st n pos. Some (st, Inr (- 1, []))" split_small "- 1" "[]"] by simp
  moreover have "sbuf_alloc_with (\<lambda>st n pos. Some (st, Inr (1, [5])))
        split_small \<lparr>raw_offset = 4, file_number = 0, eof = False\<rparr> =
       Some (split_small, \<lparr>raw_offset = 4, file_number = 0, eof = False\<rparr>,
             Inr \<lparr>pos0 = ([], 4), buf = [5], bufsize = 2, sbuf_pagesize = 2\<rparr>)"
    using rd [of "\<lambda>st n pos. Some (st, Inr (1, [5]))" split_small 1 "[5]"] by simp
  ultimately show ?thesis using a b by blast
qed

section \<open>Properties of the pcap writer\<close>

lemma length_pcap_write4: "length (pcap_write4 v) = 4"
  by (simp add: pcap_write4_def)

lemma pcap_file_header_bytes:
  "pcap_file_header m =
     [0xD4, 0xC3, 0xB2, 0xA1, 2, 0, 4, 0, 0, 0, 0, 0, 0, 0, 0, 0] @ pcap_write4 (of_nat m) @ [1, 0, 0, 0]"
  by (simp add: pcap_file_header_def pcap_write4_def pcap_write2_def DLT_EN10MB_def)

lemma length_pcap_file_header: "length (pcap_file_header m) = 24"
  by (simp add: pcap_file_header_bytes length_pcap_write4)

text \<open>
  C2, as stated: one synthesized 60-byte packet with frame type \<open>0x0800\<close> yields a file of
  114 bytes whose byte 38 is \<open>0x08\<close>.  This fails: byte 38 lies in the record header (the
  third byte of the original length, 74 here) and is 0; the type is at bytes 52 and 53.
\<close>

theorem pcap_byte_38_counterexample:
  "\<exists>f. pcap_writepkt 65535 True \<lparr>outpath = ''packets.pcap'', fcap = None\<rparr>
          \<lparr>seconds = 0, useconds = 0, cap_len = 60, pkt_len = 60\<rparr> ipv4_page 100 True 0x0800
        = Inr \<lparr>outpath = ''packets.pcap'', fcap = Some f\<rparr>
      \<and> length f = 114 \<and> f ! 38 = 0 \<and> f ! 38 \<noteq> 0x08 \<and> f ! 52 = 0x08"
  by (simp add: pcap_writepkt_def pcap_file_header_bytes pcap_write4_def ETHER_HEAD_LEN_def
      sbuf_write_def ipv4_page_def nth_append)

text \<open>
  C2, amended: for every call of \<^verbatim>\<open>pcap_writepkt\<close> with a frame-synthesis request whose
  file can be opened: if \<open>cap_len + 14 \<le> PCAP_MAX_PKT_LEN\<close>, a 14-byte Ethernet header (6
  zero destination bytes, 6 zero source bytes, the type big-endian) is put before the
  packet and both length fields of the record header hold the extra 14; otherwise the
  record is written without it and no error is raised; a first write puts the 24-byte
  libpcap global header (magic \<open>0xA1B2C3D4\<close>, major 2, minor 4, zone 0, sigfigs 0, snaplen
  \<open>PCAP_MAX_PKT_LEN\<close>, link type 1, all little-endian) in front, a later write appends to
  the file; so one synthesized 60-byte packet with frame type \<open>0x0800\<close> yields a file of
  114 bytes whose bytes 52 and 53 are \<open>0x08\<close> and \<open>0x00\<close>.
\<close>

theorem pcap_writepkt_synthesis:
  "pcap_writepkt max_pkt_len True w h sb pos True frame_type =
     Inr (w\<lparr>fcap := Some
       ((case fcap w of None \<Rightarrow> pcap_file_header max_pkt_len | Some f \<Rightarrow> f)
        @ (if unat (cap_len h) + 14 \<le> max_pkt_len
           then pcap_write4 (seconds h) @ pcap_write4 (useconds h)
                  @ pcap_write4 (cap_len h + 14) @ pcap_write4 (pkt_len h + 14)
                  @ replicate 6 0 @ replicate 6 0 @ [ucast (drop_bit 8 frame_type), ucast frame_type]
                  @ sbuf_write sb pos (unat (cap_len h))
           else pcap_write4 (seconds h) @ pcap_write4 (useconds h)
                  @ pcap_write4 (cap_len h) @ pcap_write4 (pkt_len h)
                  @ sbuf_write sb pos (unat (cap_len h))))\<rparr>)
   \<and> pcap_file_header max_pkt_len =
       [0xD4, 0xC3, 0xB2, 0xA1, 2, 0, 4, 0, 0, 0, 0, 0, 0, 0, 0, 0]
         @ pcap_write4 (of_nat max_pkt_len) @ [1, 0, 0, 0]
   \<and> length (pcap_file_header max_pkt_len) = 24
   \<and> (fcap w = None \<and> cap_len h = 60 \<and> pos + 60 \<le> length (buf sb) \<and> 74 \<le> max_pkt_len
         \<and> frame_type = 0x0800 \<longrightarrow>
       (\<exists>f. pcap_writepkt max_pkt_len True w h sb pos True frame_type = Inr (w\<lparr>fcap := Some f\<rparr>)
            \<and> length f = 114 \<and> f ! 52 = 0x08 \<and> f ! 53 = 0x00
            \<and> drop 54 f = take 60 (drop pos (buf sb))))"
proof -
  have a: "pcap_writepkt max_pkt_len True w h sb pos True frame_type =
     Inr (w\<lparr>fcap := Some
       ((case fcap w of None \<Rightarrow> pcap_file_header max_pkt_len | Some f \<Rightarrow> f)
        @ (if unat (cap_len h) + 14 \<le> max_pkt_len
           then pcap_write4 (seconds h) @ pcap_write4 (useconds h)
                  @ pcap_write4 (cap_len h + 14) @ pcap_write4 (pkt_len h + 14)
                  @ replicate 6 0 @ replicate 6 0 @ [ucast (drop_bit 8 frame_type), ucast frame_type]
                  @ sbuf_write sb pos (unat (cap_len h))
           else pcap_write4 (seconds h) @ pcap_write4 (useconds h)
                  @ pcap_write4 (cap_len h) @ pcap_write4 (pkt_len h)
                  @ sbuf_write sb pos (unat (cap_len h))))\<rparr>)"
    by (cases "fcap w")
       (simp_all add: pcap_writepkt_def ETHER_HEAD_LEN_def Let_def replicate_add [symmetric])
  have b: "\<exists>f. pcap_writepkt max_pkt_len True w h sb pos True frame_type = Inr (w\<lparr>fcap := Some f\<rparr>)
            \<and> length f = 114 \<and> f ! 52 = 0x08 \<and> f ! 53 = 0x00
            \<and> drop 54 f = take 60 (drop pos (buf sb))"
    if h: "fcap w = None" "cap_len h = 60" "pos + 60 \<le> length (buf sb)" "74 \<le> max_pkt_len"
      "frame_type = 0x0800"
  proof -
    let ?f = "pcap_file_header max_pkt_len @ pcap_write4 (seconds h) @ pcap_write4 (useconds h)
                  @ pcap_write4 (cap_len h + 14) @ pcap_write4 (pkt_len h + 14)
                  @ replicate 6 0 @ replicate 6 0 @ [ucast (drop_bit 8 frame_type), ucast frame_type]
                  @ sbuf_write sb pos (unat (cap_len h))"
    have "pcap_writepkt max_pkt_len True w h sb pos True frame_type = Inr (w\<lparr>fcap := Some ?f\<rparr>)"
      unfolding a using h by simp
    moreover have "length ?f = 114"
      using h by (simp add: length_pcap_file_header length_pcap_write4 sbuf_write_def)
    moreover have "?f ! 52 = 0x08" "?f ! 53 = 0x00"
      using h by (simp_all add: length_pcap_file_header length_pcap_write4 nth_append)
    moreover have "drop 54 ?f = take 60 (drop pos (buf sb))"
      using h by (simp add: length_pcap_file_header length_pcap_write4 sbuf_write_def)
    ultimately show ?thesis by blast
  qed
  from a b pcap_file_header_bytes length_pcap_file_header show ?thesis by blast
qed

theorem pcap_writepkt_synthesis_witness:
  "pcap_writepkt 65535 True \<lparr>outpath = ''packets.pcap'', fcap = None\<rparr>
      \<lparr>seconds = 0, useconds = 0, cap_len = 60, pkt_len = 60\<rparr> ipv4_page 100 True 0x0800
    = Inr \<lparr>outpath = ''packets.pcap'', fcap = Some
        ([0xD4, 0xC3, 0xB2, 0xA1, 2, 0, 4, 0, 0, 0, 0, 0, 0, 0, 0, 0, 0xFF, 0xFF, 0, 0, 1, 0, 0, 0]
         @ [0, 0, 0, 0, 0, 0, 0, 0, 74, 0, 0, 0, 74, 0, 0, 0]
         @ replicate 6 0 @ replicate 6 0 @ [0x08, 0x00]
         @ replicate 60 0x45)\<rparr>
   \<and> pcap_writepkt 100 True \<lparr>outpath = ''packets.pcap'', fcap = Some []\<rparr>
      \<lparr>seconds = 0, useconds = 0, cap_len = 90, pkt_len = 90\<rparr> ipv4_page 100 True 0x0800
    = Inr \<lparr>outpath = ''packets.pcap'', fcap = Some
        ([0, 0, 0, 0, 0, 0, 0, 0, 90, 0, 0, 0, 90, 0, 0, 0] @ replicate 60 0x45)\<rparr>"
  using pcap_writepkt_synthesis [of 65535 "\<lparr>outpath = ''packets.pcap'', fcap = None\<rparr>"
      "\<lparr>seconds = 0, useconds = 0, cap_len = 60, pkt_len = 60\<rparr>" ipv4_page 100 "0x0800"]
    pcap_writepkt_synthesis [of 100 "\<lparr>outpath = ''packets.pcap'', fcap = Some []\<rparr>"
      "\<lparr>seconds = 0, useconds = 0, cap_len = 90, pkt_len = 90\<rparr>" ipv4_page 100 "0x0800"]
  by (simp add: pcap_file_header_bytes pcap_write4_def sbuf_write_def ipv4_page_def)


section \<open>Properties of the image factory\<close>

text \<open>
  C3, as stated: with \<open>recurse\<close> set, a directory that contains a top-level file with
  extension \<^verbatim>\<open>.E01\<close> makes the factory fail with \<^verbatim>\<open>InvalidInput\<close>, the message naming
  the offending file.  This fails: the exception is \<^verbatim>\<open>NoSuchFile\<close> and carries the path of
  the directory; the file is named only on standard error.
\<close>

theorem image_process_open_part_counterexample:
  "image_process_open evidence_fs None ''evidence'' True 4096 1024 =
     Some ([Image_part_in_directory ''evidence/image.E01'' ''evidence''],
           Inl (NoSuchFile ''evidence''))
   \<and> (\<forall>msg. image_process_open evidence_fs None ''evidence'' True 4096 1024 \<noteq>
         Some ([Image_part_in_directory ''evidence/image.E01'' ''evidence''],
               Inl (InvalidArgument msg)))"
proof -
  have e: "is_image_part ''evidence/image.E01''" "\<not> is_image_part ''evidence/notes.txt''"
    by code_simp+
  have "image_process_open evidence_fs None ''evidence'' True 4096 1024 =
     Some ([Image_part_in_directory ''evidence/image.E01'' ''evidence''],
           Inl (NoSuchFile ''evidence''))"
    by (simp add: image_process_open_def evidence_fs_def fs_stat_def path_append_def e)
  then show ?thesis by simp
qed

text \<open>
  C3, amended: for every path that is a directory: with \<open>recurse\<close> not set the factory
  fails with \<^verbatim>\<open>NoSuchFile\<close>; with \<open>recurse\<close> set, if the directory has a top-level entry
  whose extension is \<^verbatim>\<open>.E01\<close>, \<^verbatim>\<open>.000\<close> or \<^verbatim>\<open>.001\<close>, it fails with \<^verbatim>\<open>NoSuchFile\<close> carrying
  the path of the directory, after a diagnostic naming such an entry; otherwise a
  directory source over the regular files of the tree is constructed.
\<close>

theorem image_process_open_directory:
  assumes "fs_stat fs fn = Some (Directory es)"
  shows "image_process_open fs libewf fn False ps mg =
           Some ([Directory_without_recurse fn], Inl (NoSuchFile fn))
    \<and> (list_ex (\<lambda>ne. is_image_part (path_append fn (fst ne))) es \<longrightarrow>
          (\<exists>ne. ne \<in> set es \<and> is_image_part (path_append fn (fst ne))
             \<and> image_process_open fs libewf fn True ps mg =
                 Some ([Image_part_in_directory (path_append fn (fst ne)) fn], Inl (NoSuchFile fn))))
    \<and> (\<not> list_ex (\<lambda>ne. is_image_part (path_append fn (fst ne))) es \<longrightarrow>
          image_process_open fs libewf fn True ps mg =
            Some ([], Inr (Process_dir (regular_files fn (Directory es)))))"
proof -
  let ?P = "\<lambda>ne. is_image_part (path_append fn (fst ne))"
  have a: "image_process_open fs libewf fn False ps mg =
           Some ([Directory_without_recurse fn], Inl (NoSuchFile fn))"
    using assms by (simp add: image_process_open_def)
  have b: "\<exists>ne. ne \<in> set es \<and> ?P ne
             \<and> image_process_open fs libewf fn True ps mg =
                 Some ([Image_part_in_directory (path_append fn (fst ne)) fn], Inl (NoSuchFile fn))"
    if "list_ex ?P es"
  proof -
    from that obtain ne where f: "find ?P es = Some ne"
      by (cases "find ?P es") (auto simp: find_None_iff list_ex_iff)
    then have "ne \<in> set es" "?P ne"
      by (auto simp: find_Some_iff)
    moreover have "image_process_open fs libewf fn True ps mg =
        Some ([Image_part_in_directory (path_append fn (fst ne)) fn], Inl (NoSuchFile fn))"
      using assms f by (simp add: image_process_open_def)
    ultimately show ?thesis by blast
  qed
  have c: "image_process_open fs libewf fn True ps mg =
            Some ([], Inr (Process_dir (regular_files fn (Directory es))))"
    if "\<not> list_ex ?P es"
  proof -
    from that have "find ?P es = None" unfolding find_None_iff list_ex_iff by blast
    with assms show ?thesis by (simp add: image_process_open_def)
  qed
  from a b c show ?thesis by blast
qed

theorem image_process_open_directory_witness:
  "image_process_open evidence_fs None ''evidence'' False 4096 1024 =
     Some ([Directory_without_recurse ''evidence''], Inl (NoSuchFile ''evidence''))
   \<and> image_process_open evidence_fs None ''evidence'' True 4096 1024 =
     Some ([Image_part_in_directory ''evidence/image.E01'' ''evidence''],
           Inl (NoSuchFile ''evidence''))
   \<and> image_process_open evidence_fs None ''tree'' True 4096 1024 =
     Some ([], Inr (Process_dir [''tree/notes.txt'', ''tree/sub/a.bin'']))"
proof -
  have s: "fs_stat evidence_fs ''evidence'' =
             Some (Directory [(''notes.txt'', RegularFile [1]), (''image.E01'', RegularFile [2])])"
    "fs_stat evidence_fs ''tree'' =
             Some (Directory [(''notes.txt'', RegularFile [1]),
                              (''sub'', Directory [(''a.bin'', RegularFile [2])])])"
    by (simp_all add: evidence_fs_def fs_stat_def)
  have e: "is_image_part ''evidence/image.E01''" "\<not> is_image_part ''evidence/notes.txt''"
    "\<not> is_image_part ''tree/notes.txt''" "\<not> is_image_part ''tree/sub''"
    by code_simp+
  have p: "path_append ''evidence'' ''notes.txt'' = ''evidence/notes.txt''"
    "path_append ''evidence'' ''image.E01'' = ''evidence/image.E01''"
    "path_append ''tree'' ''notes.txt'' = ''tree/notes.txt''"
    "path_append ''tree'' ''sub'' = ''tree/sub''"
    "path_append ''tree/sub'' ''a.bin'' = ''tree/sub/a.bin''"
    by (simp_all add: path_append_def)
  from image_process_open_directory [OF s(1), of None 4096 1024]
    image_process_open_directory [OF s(2), of None 4096 1024]
  show ?thesis by (auto simp: p e)
qed


section \<open>Properties of the facebook scanner\<close>

lemma find_first_le: "find_first b needle k = - 1 \<or> find_first b needle k \<le> int (k + length b)"
proof (induction b arbitrary: k)
  case Nil
  then show ?case by simp
next
  case (Cons a b)
  from Cons [of "Suc k"] show ?case by auto
qed

lemma sbuf_find_le: "sbuf_find sb needle start = - 1 \<or> sbuf_find sb needle start \<le> int (bufsize sb)"
  using find_first_le [of "drop start (take (bufsize sb) (buf sb))" needle start]
  by (auto simp: sbuf_find_def)

lemma find_first_padding:
  "needle \<noteq> [] \<Longrightarrow> hd needle \<noteq> c \<Longrightarrow>
     find_first (replicate n c @ rest) needle k = find_first rest needle (k + n)"
proof (induction n arbitrary: k)
  case 0
  then show ?case by simp
next
  case (Suc n)
  from Suc.prems have "take (length needle) (c # replicate n c @ rest) \<noteq> needle"
    by (cases needle) auto
  with Suc show ?case by simp
qed

lemma find_first_here:
  "find_first (needle @ rest) needle k = int k"
proof (cases "needle @ rest")
  case Nil
  then show ?thesis by simp
next
  case (Cons a list)
  have "take (length needle) (needle @ rest) = needle" by simp
  with Cons show ?thesis by simp
qed

lemma value_used_in_iff: "value_used_in xs v \<longleftrightarrow> (\<exists>x \<in> set xs. \<bar>v - x\<bar> < 2048)"
  by (induction xs) (auto simp: window_def)

lemma scan_needle_done: "\<not> i + 50 < bufsize sb \<Longrightarrow> scan_needle sb needle i st = st"
  by (subst scan_needle.simps) simp

lemma scan_needle_miss: "sbuf_find sb needle i < 1 \<Longrightarrow> scan_needle sb needle i st = st"
  by (subst scan_needle.simps) simp

lemma scan_needle_step:
  assumes "i + 50 < bufsize sb" and "sbuf_find sb needle i = location" and "1 \<le> location"
  shows "scan_needle sb needle i (used, r) =
           (if \<exists>x \<in> set used. \<bar>location - x\<bar> < 2048
            then scan_needle sb needle (nat location + 4097) (used, r)
            else scan_needle sb needle (nat location + 4097)
                   (used @ [location],
                    r @ [(max 0 (location - 2048),
                          min 4096 (int (bufsize sb) - 10 - max 0 (location - 2048)))]))"
proof -
  have n: "nat (location + 4096) + 1 = nat location + 4097"
    using assms(3) by simp
  have w: "(if location > 2048 then location - 2048 else 0) = max 0 (location - 2048)"
    by (simp add: max_def)
  have l: "(if b + 4096 + 10 > int (bufsize sb) then int (bufsize sb) - 10 else b + 4096) - b
             = min 4096 (int (bufsize sb) - 10 - b)" for b
    by (simp add: min_def)
  have u: "scan_needle sb needle i (used, r) =
      (if value_used_in used location
       then scan_needle sb needle (nat (location + 4096) + 1) (used, r)
       else scan_needle sb needle (nat (location + 4096) + 1)
              (used @ [location],
               r @ [((if location > 2048 then location - 2048 else 0),
                     (if (if location > 2048 then location - 2048 else 0) + 4096 + 10 > int (bufsize sb)
                      then int (bufsize sb) - 10
                      else (if location > 2048 then location - 2048 else 0) + 4096)
                     - (if location > 2048 then location - 2048 else 0))]))"
    using assms
    by (subst scan_needle.simps) (simp add: value_used_def Let_def write_buf_def window_def)
  show ?thesis
    unfolding u n w l value_used_in_iff ..
qed

lemma pokes_page_find:
  "sbuf_find pokes_page (bytes_of ''pokesText'') 0 = 10"
  "sbuf_find pokes_page (bytes_of ''mobileFriends'') 0 = 30"
  "bufsize pokes_page = 64"
  by code_simp+

lemma large_page_find:
  "sbuf_find large_page (bytes_of ''pokesText'') 0 = 100" "bufsize large_page = 4200"
proof -
  have "bytes_of ''pokesText'' \<noteq> []" "hd (bytes_of ''pokesText'') \<noteq> 0x20"
    by (simp_all add: bytes_of_def)
  from find_first_padding [OF this, of 100 "bytes_of ''pokesText'' @ replicate 4091 0x20" 0]
  show "sbuf_find large_page (bytes_of ''pokesText'') 0 = 100"
    by (simp add: sbuf_find_def large_page_def page_of_def find_first_here)
  show "bufsize large_page = 4200"
    by (simp add: large_page_def page_of_def bytes_of_def)
qed

text \<open>
  C9, as stated: every hit writes a 4096-byte window centred on the hit and clipped
  to the buffer bounds.  This fails.  On the page of 64 bytes the hit at offset 10 is
  written as the 54 bytes from 0, not the 64 bytes up to the end of the buffer: the
  window ends 10 bytes before it.  On the page of 4200 bytes the hit at offset 100 is
  written as the 4096 bytes from 0, not the 2148 bytes that a window centred on the hit
  leaves within the buffer: a window cut at the front keeps its full width.
\<close>

theorem scan_facebook_window_counterexample:
  "scan_facebook PHASE_SCAN pokes_page [] = [(0, 54)]
   \<and> sbuf_find pokes_page (bytes_of ''pokesText'') 0 = 10
   \<and> (max 0 (10 - 2048 :: int), min (int (bufsize pokes_page)) (10 + 2048) - max 0 (10 - 2048))
       = (0, 64)
   \<and> scan_needle large_page (bytes_of ''pokesText'') 0 ([], []) = ([100], [(0, 4096)])
   \<and> sbuf_find large_page (bytes_of ''pokesText'') 0 = 100
   \<and> (max 0 (100 - 2048 :: int), min (int (bufsize large_page)) (100 + 2048) - max 0 (100 - 2048))
       = (0, 2148)"
proof -
  have a: "scan_facebook PHASE_SCAN pokes_page [] = [(0, 54)]"
    by code_simp
  have d: "scan_needle large_page (bytes_of ''pokesText'') 4197 ([100], [(0, 4096)])
             = ([100], [(0, 4096)])"
    by (rule scan_needle_done) (simp add: large_page_find)
  have "scan_needle large_page (bytes_of ''pokesText'') 0 ([], []) =
          scan_needle large_page (bytes_of ''pokesText'') 4197 ([100], [(0, 4096)])"
    using scan_needle_step [of 0 large_page "bytes_of ''pokesText''" 100 "[]" "[]"] large_page_find
    by simp
  with d have b: "scan_needle large_page (bytes_of ''pokesText'') 0 ([], []) = ([100], [(0, 4096)])"
    by (simp only:)
  from a b show ?thesis by (simp add: pokes_page_find large_page_find)
qed

text \<open>
  C9, amended: in the facebook scanner, at a cursor \<open>i\<close> with \<open>i + 50 < bufsize\<close>, a hit
  at \<open>location \<ge> 1\<close> whose distance to some offset recorded earlier on the page (for any
  needle) is less than 2048 is suppressed and not recorded; any other hit is recorded
  and written as the window that begins at \<open>max 0 (location - 2048)\<close> and is 4096 bytes
  long, cut at \<open>bufsize - 10\<close>; the window lies within the buffer and starts at or
  before the hit.  After either outcome the cursor is set to \<open>location + 4096\<close> and the
  loop's increment moves it one further, so the search goes on at \<open>location + 4097\<close>.
\<close>

theorem scan_needle_hit:
  assumes "i + 50 < bufsize sb" and "sbuf_find sb needle i = location" and "1 \<le> location"
  shows "scan_needle sb needle i (used, r) =
           (if \<exists>x \<in> set used. \<bar>location - x\<bar> < 2048
            then scan_needle sb needle (nat location + 4097) (used, r)
            else scan_needle sb needle (nat location + 4097)
                   (used @ [location],
                    r @ [(max 0 (location - 2048),
                          min 4096 (int (bufsize sb) - 10 - max 0 (location - 2048)))]))
    \<and> int i \<le> location
    \<and> max 0 (location - 2048) \<le> location
    \<and> 0 < min 4096 (int (bufsize sb) - 10 - max 0 (location - 2048))
    \<and> max 0 (location - 2048) + min 4096 (int (bufsize sb) - 10 - max 0 (location - 2048))
          \<le> int (bufsize sb) - 10"
proof -
  from sbuf_find_ge [of sb needle i] sbuf_find_le [of sb needle i] assms(2,3)
  have b: "int i \<le> location" "location \<le> int (bufsize sb)" by auto
  with assms(1,3) scan_needle_step [OF assms] show ?thesis by auto
qed

theorem scan_needle_hit_witness:
  "scan_needle pokes_page (bytes_of ''pokesText'') 0 ([], []) = ([10], [(0, 54)])
   \<and> scan_needle pokes_page (bytes_of ''mobileFriends'') 0 ([10], [(0, 54)]) = ([10], [(0, 54)])"
  using scan_needle_hit [of 0 pokes_page "bytes_of ''pokesText''" 10 "[]" "[]"]
    scan_needle_hit [of 0 pokes_page "bytes_of ''mobileFriends''" 30 "[10]" "[(0, 54)]"]
  by (simp add: pokes_page_find scan_needle_done)

text \<open>
  C10: in \<^verbatim>\<open>scan_facebook\<close> a find result of 0 is treated as not found (the test is
  \<open>location < 1\<close>): for every page on which the first occurrence of a needle starts at
  offset 0, nothing is written or recorded for that needle and its search on the page
  stops, exactly as when the needle does not occur at all.
\<close>

theorem scan_needle_hit_at_zero:
  assumes "needle \<noteq> []" and "take (length needle) (take (bufsize sb) (buf sb)) = needle"
  shows "sbuf_find sb needle 0 = 0 \<and> scan_needle sb needle 0 st = st
    \<and> (\<forall>other. sbuf_find sb other 0 = - 1 \<longrightarrow> scan_needle sb other 0 st = st)"
proof -
  have "take (bufsize sb) (buf sb) \<noteq> []"
  proof
    assume "take (bufsize sb) (buf sb) = []"
    with assms(2) have "needle = []" by (simp only: take_Nil)
    with assms(1) show False by simp
  qed
  then obtain x xs where c: "take (bufsize sb) (buf sb) = x # xs"
    by (cases "take (bufsize sb) (buf sb)") auto
  with assms(2) have z: "sbuf_find sb needle 0 = 0"
    by (simp add: sbuf_find_def)
  then have "scan_needle sb needle 0 st = st" by (simp add: scan_needle_miss)
  with z show ?thesis by (simp add: scan_needle_miss)
qed

theorem scan_needle_hit_at_zero_witness:
  "sbuf_find leading_page (bytes_of ''pokesText'') 0 = 0
   \<and> scan_needle leading_page (bytes_of ''pokesText'') 0 ([], []) = ([], [])
   \<and> scan_facebook PHASE_SCAN leading_page [] = []"
proof -
  have n: "bytes_of ''pokesText'' \<noteq> []"
    "take (length (bytes_of ''pokesText'')) (take (bufsize leading_page) (buf leading_page))
       = bytes_of ''pokesText''"
    by (simp_all add: bytes_of_def leading_page_def page_of_def)
  have "scan_facebook PHASE_SCAN leading_page [] = []"
    by code_simp
  with scan_needle_hit_at_zero [OF n, of "([], [])"] show ?thesis by simp
qed


section \<open>Properties of the FAT validator\<close>

lemma valid_dentry_tally:
  assumes "valid_fat_directory_entry h opts sb = VALID_DENTRY"
  shows "weird_count h opts (fatfs_dentry_of (buf sb)) \<le> opt_max_weird_count opts
       \<or> (undated (fatfs_dentry_of (buf sb))
            \<and> attrib (fatfs_dentry_of (buf sb)) AND FATFS_ATTR_VOLUME h \<noteq> 0)"
  using assms
  by (simp add: valid_fat_directory_entry_def Let_def undated_def split: if_splits)

lemma weird_entry_invalid:
  assumes "bufsize sb = 32" "\<not> is_constant sb (buf sb ! 0)"
    and "attrib (fatfs_dentry_of (buf sb)) \<noteq> FATFS_ATTR_LFN h"
    and "dname (fatfs_dentry_of (buf sb)) ! 0 \<noteq> 0"
    and "\<not> (undated (fatfs_dentry_of (buf sb))
            \<and> attrib (fatfs_dentry_of (buf sb)) AND FATFS_ATTR_VOLUME h \<noteq> 0)"
    and "weird_count h opts (fatfs_dentry_of (buf sb)) > opt_max_weird_count opts"
  shows "valid_fat_directory_entry h opts sb = INVALID"
  using assms
  by (auto simp: valid_fat_directory_entry_def Let_def undated_def)

lemma three_oddities:
  assumes "unat (fat32int2 (highclust d) (startclust d)) > opt_weird_cluster_count2 opts"
    and "unat (fat32int (size_bytes d)) > opt_weird_file_size2 opts"
    and "ctimeten d = 50"
  shows "3 \<le> weird_count h opts d"
  using assms by (simp add: weird_count_def Let_def)

lemma examples_dentry:
  "bufsize volume_label = 32" "bufsize hello_txt = 32" "bufsize weird_txt = 32"
  "\<not> is_constant weird_txt (buf weird_txt ! 0)"
  "attrib (fatfs_dentry_of (buf weird_txt)) \<noteq> FATFS_ATTR_LFN fat_format"
  "dname (fatfs_dentry_of (buf weird_txt)) ! 0 \<noteq> 0"
  "\<not> undated (fatfs_dentry_of (buf weird_txt))"
  "ctimeten (fatfs_dentry_of (buf weird_txt)) = 50"
  "ctimeten (fatfs_dentry_of (buf volume_label)) = 50"
  "unat (fat32int (size_bytes (fatfs_dentry_of (buf weird_txt)))) = 4294967295"
  "unat (fat32int (size_bytes (fatfs_dentry_of (buf volume_label)))) = 4294967295"
  "unat (fat32int2 (highclust (fatfs_dentry_of (buf weird_txt)))
                   (startclust (fatfs_dentry_of (buf weird_txt)))) = 2147483647"
  "unat (fat32int2 (highclust (fatfs_dentry_of (buf volume_label)))
                   (startclust (fatfs_dentry_of (buf volume_label)))) = 2147483647"
  by (simp_all add: volume_label_def hello_txt_def weird_txt_def dentry_sbuf_def is_constant_def
      fatfs_dentry_of_def fat_format_def undated_def fat16int_def fat32int_def fat32int2_def)

lemma examples_tally:
  "weird_count fat_format (default_opts 2031) (fatfs_dentry_of (buf volume_label)) = 7"
  "weird_count fat_format (default_opts 2031) (fatfs_dentry_of (buf weird_txt)) = 5"
  "weird_count fat_format (default_opts 2031) (fatfs_dentry_of (buf hello_txt)) = 0"
  by (simp_all add: weird_count_def fat_format_def default_opts_def fatfs_dentry_of_def
      volume_label_def weird_txt_def hello_txt_def dentry_sbuf_def fat16int_def fat32int_def
      fat32int2_def fat_year_def count_bits_def CLUSTERS_IN_1GiB_def)

lemma examples_valid:
  "valid_fat_directory_entry fat_format (default_opts 2031) volume_label = VALID_DENTRY"
  "valid_fat_directory_entry fat_format (default_opts 2031) hello_txt = VALID_DENTRY"
  by (simp_all add: valid_fat_directory_entry_def Let_def
      volume_label_def hello_txt_def dentry_sbuf_def is_constant_def fatfs_dentry_of_def
      fat_format_def fat16int_def valid_fat_dentry_name_def fat_is_83_name_def
      name_char_ok_def isupper_def isdigit_def fat_istime_def fat_isdate_def default_opts_def
      weird_count_def fat32int_def fat32int2_def fat_year_def count_bits_def CLUSTERS_IN_1GiB_def)

text \<open>
  C6, as stated: for every 32-byte short directory entry and the default
  configuration, \<^verbatim>\<open>valid_fat_directory_entry\<close> returns \<^verbatim>\<open>INVALID\<close> whenever the weird-count
  of the entry exceeds \<open>opt_max_weird_count\<close>; in particular an entry with cluster above
  \<open>opt_weird_cluster_count2\<close>, size above \<open>opt_weird_file_size2\<close> and \<open>ctimeten = 50\<close> is
  rejected.  This fails for a volume label without dates: the validator returns
  \<^verbatim>\<open>VALID_DENTRY\<close> for it before the tally is taken.  The label \<^verbatim>\<open>DISK\<close> below has the three
  properties and a weird-count of 7.
\<close>

theorem volume_label_counterexample:
  "valid_fat_directory_entry fat_format (default_opts 2031) volume_label = VALID_DENTRY
   \<and> opt_max_weird_count (default_opts 2031) = 2
   \<and> weird_count fat_format (default_opts 2031) (fatfs_dentry_of (buf volume_label)) = 7
   \<and> unat (fat32int2 (highclust (fatfs_dentry_of (buf volume_label)))
                      (startclust (fatfs_dentry_of (buf volume_label))))
        > opt_weird_cluster_count2 (default_opts 2031)
   \<and> unat (fat32int (size_bytes (fatfs_dentry_of (buf volume_label))))
        > opt_weird_file_size2 (default_opts 2031)
   \<and> ctimeten (fatfs_dentry_of (buf volume_label)) = 50"
  using examples_valid(1) examples_tally(1)
  by (simp add: examples_dentry default_opts_def CLUSTERS_IN_1GiB_def)

text \<open>
  C6, amended: for every 32-byte FAT directory entry and every configuration, an
  entry that \<^verbatim>\<open>valid_fat_directory_entry\<close> accepts as \<^verbatim>\<open>VALID_DENTRY\<close> has a weird-count of
  at most \<open>opt_max_weird_count\<close>, unless it is a volume label whose access date, creation
  time and creation date are all zero; a short entry (not constant, not a long-name
  entry, first name byte not zero) that is not such a label is rejected
  (\<^verbatim>\<open>INVALID\<close>) whenever its weird-count exceeds \<open>opt_max_weird_count\<close>; in particular such
  an entry with cluster above \<open>opt_weird_cluster_count2\<close>, size above
  \<open>opt_weird_file_size2\<close> and \<open>ctimeten = 50\<close> has a weird-count of at least 3 and is
  rejected under the default \<open>opt_max_weird_count = 2\<close>.
\<close>

theorem valid_fat_directory_entry_weird:
  "(valid_fat_directory_entry h opts sb = VALID_DENTRY \<longrightarrow>
      weird_count h opts (fatfs_dentry_of (buf sb)) \<le> opt_max_weird_count opts
      \<or> (undated (fatfs_dentry_of (buf sb))
           \<and> attrib (fatfs_dentry_of (buf sb)) AND FATFS_ATTR_VOLUME h \<noteq> 0))
   \<and> (bufsize sb = 32 \<and> \<not> is_constant sb (buf sb ! 0)
        \<and> attrib (fatfs_dentry_of (buf sb)) \<noteq> FATFS_ATTR_LFN h
        \<and> dname (fatfs_dentry_of (buf sb)) ! 0 \<noteq> 0
        \<and> \<not> (undated (fatfs_dentry_of (buf sb))
               \<and> attrib (fatfs_dentry_of (buf sb)) AND FATFS_ATTR_VOLUME h \<noteq> 0) \<longrightarrow>
      (weird_count h opts (fatfs_dentry_of (buf sb)) > opt_max_weird_count opts \<longrightarrow>
         valid_fat_directory_entry h opts sb = INVALID)
      \<and> (unat (fat32int2 (highclust (fatfs_dentry_of (buf sb)))
                          (startclust (fatfs_dentry_of (buf sb))))
             > opt_weird_cluster_count2 opts
          \<and> unat (fat32int (size_bytes (fatfs_dentry_of (buf sb)))) > opt_weird_file_size2 opts
          \<and> ctimeten (fatfs_dentry_of (buf sb)) = 50
          \<and> opt_max_weird_count opts \<le> 2 \<longrightarrow>
         3 \<le> weird_count h opts (fatfs_dentry_of (buf sb))
         \<and> valid_fat_directory_entry h opts sb = INVALID))"
proof -
  let ?d = "fatfs_dentry_of (buf sb)"
  have a: "valid_fat_directory_entry h opts sb = VALID_DENTRY \<longrightarrow>
      weird_count h opts ?d \<le> opt_max_weird_count opts
      \<or> (undated ?d \<and> attrib ?d AND FATFS_ATTR_VOLUME h \<noteq> 0)"
    using valid_dentry_tally [of h opts sb] by blast
  have b: "valid_fat_directory_entry h opts sb = INVALID"
    if "bufsize sb = 32" "\<not> is_constant sb (buf sb ! 0)" "attrib ?d \<noteq> FATFS_ATTR_LFN h"
      "dname ?d ! 0 \<noteq> 0" "\<not> (undated ?d \<and> attrib ?d AND FATFS_ATTR_VOLUME h \<noteq> 0)" "weird_count h opts ?d > opt_max_weird_count opts"
    using weird_entry_invalid [OF that] .
  have c: "3 \<le> weird_count h opts ?d"
    if "unat (fat32int2 (highclust ?d) (startclust ?d)) > opt_weird_cluster_count2 opts"
      "unat (fat32int (size_bytes ?d)) > opt_weird_file_size2 opts" "ctimeten ?d = 50"
    using three_oddities [OF that] .
  have d: "valid_fat_directory_entry h opts sb = INVALID"
    if "bufsize sb = 32" "\<not> is_constant sb (buf sb ! 0)" "attrib ?d \<noteq> FATFS_ATTR_LFN h"
      "dname ?d ! 0 \<noteq> 0" "\<not> (undated ?d \<and> attrib ?d AND FATFS_ATTR_VOLUME h \<noteq> 0)"
      "unat (fat32int2 (highclust ?d) (startclust ?d)) > opt_weird_cluster_count2 opts"
      "unat (fat32int (size_bytes ?d)) > opt_weird_file_size2 opts" "ctimeten ?d = 50"
      "opt_max_weird_count opts \<le> 2"
  proof -
    from c [OF that(6,7,8)] that(9)
    have "weird_count h opts ?d > opt_max_weird_count opts" by simp
    from b [OF that(1,2,3,4,5) this] show ?thesis .
  qed
  from a b c d show ?thesis by blast
qed

theorem valid_fat_directory_entry_weird_witness:
  "valid_fat_directory_entry fat_format (default_opts 2031) weird_txt = INVALID
   \<and> weird_count fat_format (default_opts 2031) (fatfs_dentry_of (buf weird_txt)) = 5
   \<and> valid_fat_directory_entry fat_format (default_opts 2031) hello_txt = VALID_DENTRY
   \<and> weird_count fat_format (default_opts 2031) (fatfs_dentry_of (buf hello_txt)) = 0"
  using valid_fat_directory_entry_weird [of fat_format "default_opts 2031" weird_txt]
    valid_fat_directory_entry_weird [of fat_format "default_opts 2031" hello_txt]
    examples_valid(2) examples_tally
  by (simp add: examples_dentry default_opts_def CLUSTERS_IN_1GiB_def)

section \<open>Properties of the NTFS scanner\<close>

lemma typed_reads_checked:
  "(get8u n i = None) = (bufsize n < i + 1)"
  "(get16u n i = None) = (bufsize n < i + 2)"
  "(get32u n i = None) = (bufsize n < i + 4)"
  "(get64u n i = None) = (bufsize n < i + 8)"
  "(sbuf_at n i = None) = (bufsize n \<le> i)"
  by (auto simp: get8u_def get16u_def get32u_def get64u_def sbuf_at_def)

lemma candidate_bases_done: "\<not> base < sbuf_pagesize sb \<Longrightarrow> candidate_bases sb base = []"
  by (simp add: candidate_bases_def)

lemma candidate_bases_next:
  assumes "base < sbuf_pagesize sb"
  shows "candidate_bases sb base = base # candidate_bases sb (base + 512)"
proof -
  let ?m = "(sbuf_pagesize sb - (base + 512) + 511) div 512"
  have c: "(sbuf_pagesize sb - base + 511) div 512 = Suc ?m"
    using assms by (cases "sbuf_pagesize sb - base \<le> 512") auto
  have "map (\<lambda>k. base + 512 * k) [0 ..< Suc ?m] =
          base # map (\<lambda>k. base + 512 * k) (map Suc [0 ..< ?m])"
    by (simp only: upt_conv_Cons [of 0 "Suc ?m"] map_Suc_upt list.map) simp
  also have "map (\<lambda>k. base + 512 * k) (map Suc [0 ..< ?m]) = map (\<lambda>k. base + 512 + 512 * k) [0 ..< ?m]"
    by simp
  finally show ?thesis by (simp add: candidate_bases_def c)
qed

lemma scan_ntfsdirs_from_candidates:
  "scan_ntfsdirs_from h sb base w = w @ concat (map (candidate_features h sb) (candidate_bases sb base))"
proof (induction h sb base w rule: scan_ntfsdirs_from.induct)
  case (1 h sb base w)
  show ?case
  proof (cases "base < sbuf_pagesize sb")
    case False
    then show ?thesis
      by (subst scan_ntfsdirs_from.simps) (simp add: candidate_bases_done)
  next
    case True
    note b = candidate_bases_next [OF True]
    show ?thesis
    proof (cases "bufsize (sbuf_slice sb base 1024) \<noteq> 1024")
      case short: True
      then have c: "candidate_features h sb base = []" by (simp add: candidate_features_def)
      from True short "1.IH"(1) show ?thesis
        by (subst scan_ntfsdirs_from.simps) (simp add: b c)
    next
      case False
      show ?thesis
      proof (cases "scan_mft_record h (sbuf_slice sb base 1024)")
        case None
        with False have c: "candidate_features h sb base = []" by (simp add: candidate_features_def)
        from True False None "1.IH"(2) show ?thesis
          by (subst scan_ntfsdirs_from.simps) (simp add: b c)
      next
        case (Some written)
        with False have c: "candidate_features h sb base = written"
          by (simp add: candidate_features_def)
        from True False Some "1.IH"(3) show ?thesis
          by (subst scan_ntfsdirs_from.simps) (simp add: b c)
      qed
    qed
  qed
qed

lemma scan_ntfsdirs_from_exception:
  assumes "base < sbuf_pagesize sb" "scan_mft_record h (sbuf_slice sb base 1024) = None"
  shows "scan_ntfsdirs_from h sb base w = scan_ntfsdirs_from h sb (base + 512) w"
  using assms by (subst scan_ntfsdirs_from.simps) simp

lemma walk_attrs_zero_length:
  assumes "attr_off + sizeof_ntfs_attr h < bufsize n" "get32u n (attr_off + 4) = Some 0"
  shows "walk_attrs h n attr_off st = Some st"
proof -
  from assms(2) have "attr_off + 8 \<le> bufsize n"
    by (simp add: get32u_def split: if_splits)
  then obtain t where "get32u n (attr_off + 0) = Some t"
    by (simp add: get32u_def)
  with assms show ?thesis
    by (subst walk_attrs.simps) simp
qed

lemma mft_page_slices:
  "sbuf_pagesize mft_page = 1536"
  "sbuf_slice mft_page 0 1024 =
     \<lparr>pos0 = ([], 0), buf = mft_record_bad, bufsize = 1024, sbuf_pagesize = 1024\<rparr>"
  "sbuf_slice mft_page 1024 1024 =
     \<lparr>pos0 = ([], 1024), buf = mft_record_good, bufsize = 1024, sbuf_pagesize = 512\<rparr>"
  by (simp_all add: sbuf_slice_def mft_page_def mft_record_bad_def mft_record_good_def)

lemma mft_record_bad_throws:
  "scan_mft_record ntfs_format
     \<lparr>pos0 = ([], 0), buf = mft_record_bad, bufsize = 1024, sbuf_pagesize = 1024\<rparr> = None"
  apply (simp add: scan_mft_record_def get16u_def get32u_def get64u_def mft_record_bad_def
      ntfs_format_def nth_append)
  apply (subst walk_attrs.simps)
  apply (simp add: get8u_def get16u_def get32u_def get64u_def sbuf_at_def decode_fname_def
      nth_append)
  done

lemma mft_record_good_feature:
  "scan_mft_record ntfs_format
     \<lparr>pos0 = ([], 1024), buf = mft_record_good, bufsize = 1024, sbuf_pagesize = 512\<rparr> =
   Some [(([], 1024), NOFILENAME,
       [(''nlink'', Decimal 1), (''lsn'', Decimal 9), (''seq'', Decimal 3),
        (''crtime_si'', ISODate 1), (''mtime_si'', ISODate 2),
        (''ctime_si'', ISODate 3), (''atime_si'', ISODate 4)])]"
  apply (simp add: scan_mft_record_def get16u_def get32u_def get64u_def mft_record_good_def
      ntfs_format_def nth_append)
  apply (subst walk_attrs.simps)
  apply (simp add: get8u_def get16u_def get32u_def get64u_def sbuf_at_def decode_si_def
      nth_append)
  apply (subst walk_attrs.simps)
  apply (simp add: get8u_def get16u_def get32u_def get64u_def nth_append)
  done

lemma mft_page_middle:
  "bufsize (sbuf_slice mft_page 512 1024) = 1024"
  "scan_mft_record ntfs_format (sbuf_slice mft_page 512 1024) = Some []"
  by (simp_all add: scan_mft_record_def get32u_def sbuf_slice_def mft_page_def
      mft_record_bad_def mft_record_good_def ntfs_format_def nth_append)

lemma mft_page_bases: "candidate_bases mft_page 0 = [0, 512, 1024]"
  by (simp add: candidate_bases_def mft_page_def upt_rec)

text \<open>
  C7: in \<^verbatim>\<open>scan_ntfsdirs\<close> every typed read on a candidate record is bounds-checked (a
  read fails exactly when it would go past the end of the candidate, and the scanner
  reads the record through these reads only); a read that fails on one candidate skips
  that record only: the scan goes on with the candidate 512 bytes further in the same
  page, and what the page yields is, candidate by candidate, what each candidate yields
  by itself; an attribute header of length zero ends the walk over the attributes of
  the current record, with what was decoded so far, and nothing else.
\<close>

theorem scan_ntfsdirs_local_failures:
  "(get8u n i = None) = (bufsize n < i + 1)
   \<and> (get16u n i = None) = (bufsize n < i + 2)
   \<and> (get32u n i = None) = (bufsize n < i + 4)
   \<and> (get64u n i = None) = (bufsize n < i + 8)
   \<and> (sbuf_at n i = None) = (bufsize n \<le> i)
   \<and> (base < sbuf_pagesize sb \<and> scan_mft_record h (sbuf_slice sb base 1024) = None \<longrightarrow>
        scan_ntfsdirs_from h sb base w = scan_ntfsdirs_from h sb (base + 512) w)
   \<and> scan_ntfsdirs_from h sb base w =
        w @ concat (map (candidate_features h sb) (candidate_bases sb base))
   \<and> scan_ntfsdirs h sb w = w @ concat (map (candidate_features h sb) (candidate_bases sb 0))
   \<and> (attr_off + sizeof_ntfs_attr h < bufsize n \<and> get32u n (attr_off + 4) = Some 0 \<longrightarrow>
        walk_attrs h n attr_off st = Some st)"
  using typed_reads_checked [of n i] scan_ntfsdirs_from_exception [of base sb h w]
    scan_ntfsdirs_from_candidates [of h sb base w] scan_ntfsdirs_from_candidates [of h sb 0 w]
    walk_attrs_zero_length [of attr_off h n st]
  by (simp add: scan_ntfsdirs_def)

theorem scan_ntfsdirs_local_failures_witness:
  "scan_mft_record ntfs_format (sbuf_slice mft_page 0 1024) = None
   \<and> scan_ntfsdirs_from ntfs_format mft_page 0 [] = scan_ntfsdirs_from ntfs_format mft_page 512 []
   \<and> scan_ntfsdirs ntfs_format mft_page [] =
       [(([], 1024), NOFILENAME,
         [(''nlink'', Decimal 1), (''lsn'', Decimal 9), (''seq'', Decimal 3),
          (''crtime_si'', ISODate 1), (''mtime_si'', ISODate 2),
          (''ctime_si'', ISODate 3), (''atime_si'', ISODate 4)])]
   \<and> walk_attrs ntfs_format (sbuf_slice mft_page 1024 1024) 152
        \<lparr>mftmap = [], filename = [], found_attrs = 0\<rparr>
       = Some \<lparr>mftmap = [], filename = [], found_attrs = 0\<rparr>"
proof -
  have z: "152 + sizeof_ntfs_attr ntfs_format < bufsize (sbuf_slice mft_page 1024 1024)"
    "get32u (sbuf_slice mft_page 1024 1024) (152 + 4) = Some 0"
    by (simp_all add: mft_page_slices ntfs_format_def get32u_def mft_record_good_def nth_append)
  have c: "candidate_features ntfs_format mft_page 0 = []"
    "candidate_features ntfs_format mft_page 512 = []"
    "candidate_features ntfs_format mft_page 1024 =
       [(([], 1024), NOFILENAME,
         [(''nlink'', Decimal 1), (''lsn'', Decimal 9), (''seq'', Decimal 3),
          (''crtime_si'', ISODate 1), (''mtime_si'', ISODate 2),
          (''ctime_si'', ISODate 3), (''atime_si'', ISODate 4)])]"
    by (simp_all add: candidate_features_def mft_page_slices mft_record_bad_throws
        mft_record_good_feature mft_page_middle)
  from scan_ntfsdirs_local_failures [of "sbuf_slice mft_page 1024 1024" 0 0 mft_page ntfs_format
      "[]" 152 "\<lparr>mftmap = [], filename = [], found_attrs = 0\<rparr>"] z
  show ?thesis
    by (simp add: mft_page_slices mft_record_bad_throws mft_page_bases c)
qed


end
